theory Spec2Isabelle
  imports Complex_Main "HOL-Library.Log_Nat" "HOL-Library.Code_Target_Numeral"
begin

section \<open>Python values and exceptions\<close>

text \<open>
  The feedhandler works on the values that \<^verbatim>\<open>json.loads\<close> produces: \<^verbatim>\<open>None\<close>, booleans,
  integers, floats, strings, lists and dictionaries with string keys. A dictionary is an
  association list in insertion order; lookups read the first binding of a key.

  A Python float is an IEEE 754 double: a finite value, an infinity or a NaN. A finite
  double is kept as the real number it stands for; the sign of a zero is not kept.
\<close>

datatype pyfloat = Finite real | PosInf | NegInf | NaN

datatype pyval =
    PNone
  | PBool bool
  | PInt int
  | PFloat pyfloat
  | PStr string
  | PList "pyval list"
  | PDict "(string \<times> pyval) list"

datatype py_error =
    KeyError pyval
  | IndexError
  | TypeError
  | ValueError string
  | JSONDecodeError
  | AttributeError
  | OverflowError
  | ZeroDivisionError

text \<open>Sequencing of fallible steps: the first exception raised ends the computation.\<close>

definition then_do :: "py_error + 'a \<Rightarrow> ('a \<Rightarrow> py_error + 'b) \<Rightarrow> py_error + 'b" where
  "then_do r f = (case r of Inl e \<Rightarrow> Inl e | Inr v \<Rightarrow> f v)"

text \<open>\<^verbatim>\<open>d[k]\<close> with a string key \<open>k\<close>.\<close>

fun py_getitem_key :: "pyval \<Rightarrow> string \<Rightarrow> py_error + pyval" where
  "py_getitem_key (PDict kvs) k =
     (case map_of kvs k of None \<Rightarrow> Inl (KeyError (PStr k)) | Some v \<Rightarrow> Inr v)"
| "py_getitem_key _ k = Inl TypeError"

text \<open>\<^verbatim>\<open>x[i]\<close> with a non-negative integer literal \<open>i\<close>.\<close>

fun py_getitem_idx :: "pyval \<Rightarrow> nat \<Rightarrow> py_error + pyval" where
  "py_getitem_idx (PList xs) i = (if i < length xs then Inr (xs ! i) else Inl IndexError)"
| "py_getitem_idx (PStr s) i = (if i < length s then Inr (PStr [s ! i]) else Inl IndexError)"
| "py_getitem_idx (PDict kvs) i = Inl (KeyError (PInt (int i)))"
| "py_getitem_idx _ i = Inl TypeError"

text \<open>The elements a \<^verbatim>\<open>for\<close> loop visits.\<close>

fun py_iter :: "pyval \<Rightarrow> py_error + pyval list" where
  "py_iter (PList xs) = Inr xs"
| "py_iter (PStr s) = Inr (map (\<lambda>c. PStr [c]) s)"
| "py_iter (PDict kvs) = Inr (map PStr (remdups (map fst kvs)))"
| "py_iter _ = Inl TypeError"

text \<open>
  Rounding of a real number to a double, to nearest with ties to even. \<open>ilog2 x\<close> is the
  integer \<open>l\<close> with \<open>2 ^ l \<le> x < 2 ^ (l + 1)\<close>, for a positive \<open>x\<close>. The exponent of the
  last place is that of a 53 bit significand, and not below that of the subnormal
  numbers; a result of magnitude \<open>2 ^ 1024\<close> or more is an infinity.
\<close>

definition ilog2 :: "real \<Rightarrow> int" where
  "ilog2 x =
     (if 1 \<le> x then int (floorlog 2 (nat \<lfloor>x\<rfloor>)) - 1
      else - int (floorlog 2 (nat (\<lceil>1 / x\<rceil> - 1))))"

definition round_even :: "real \<Rightarrow> int" where
  "round_even r =
     (let f = \<lfloor>r\<rfloor> in
      if r - of_int f < 1 / 2 then f
      else if 1 / 2 < r - of_int f then f + 1
      else if even f then f else f + 1)"

definition double_exponent :: "real \<Rightarrow> int" where
  "double_exponent x = max (ilog2 \<bar>x\<bar> - 52) (- 1074)"

definition round_double :: "real \<Rightarrow> pyfloat" where
  "round_double x =
     (if x = 0 then Finite 0
      else (let e = double_exponent x;
                y = of_int (round_even (x / 2 powi e)) * 2 powi e
            in if 2 ^ 1024 \<le> \<bar>y\<bar> then (if 0 < x then PosInf else NegInf) else Finite y))"

text \<open>
  The conversion of an integer to a float, as \<^verbatim>\<open>float(i)\<close> and as the conversion of an
  integer operand of a float division: the nearest double, and \<^verbatim>\<open>OverflowError\<close> when
  that is not finite.
\<close>

definition float_of_int :: "int \<Rightarrow> py_error + pyfloat" where
  "float_of_int i =
     (case round_double (real_of_int i) of
        Finite d \<Rightarrow> Inr (Finite d)
      | _ \<Rightarrow> Inl OverflowError)"

text \<open>
  The division \<^verbatim>\<open>a / b\<close> of two floats: \<^verbatim>\<open>ZeroDivisionError\<close> when \<open>b\<close> is zero, the
  rounded quotient of two finite values, and the IEEE 754 results for infinities and NaN.
\<close>

definition float_div :: "pyfloat \<Rightarrow> pyfloat \<Rightarrow> py_error + pyfloat" where
  "float_div a b =
     (case b of
        Finite y \<Rightarrow>
          if y = 0 then Inl ZeroDivisionError
          else Inr (case a of
                      Finite x \<Rightarrow> round_double (x / y)
                    | PosInf \<Rightarrow> (if 0 < y then PosInf else NegInf)
                    | NegInf \<Rightarrow> (if 0 < y then NegInf else PosInf)
                    | NaN \<Rightarrow> NaN)
      | NaN \<Rightarrow> Inr NaN
      | _ \<Rightarrow> Inr (case a of Finite x \<Rightarrow> Finite 0 | _ \<Rightarrow> NaN))"

text \<open>
  What the interpreter and the C library decide is a parameter: the float that a string
  denotes (\<open>None\<close> where \<^verbatim>\<open>float\<close> raises \<^verbatim>\<open>ValueError\<close>), and the float \<^verbatim>\<open>10.0 ** n\<close> that
  \<^verbatim>\<open>pow(10, n)\<close> gives for a negative integer \<open>n\<close>.
\<close>

record py_runtime =
  float_of_str :: "string \<Rightarrow> pyfloat option"
  pow10_neg :: "int \<Rightarrow> pyfloat"

text \<open>\<^verbatim>\<open>float(x)\<close>.\<close>

fun py_float :: "py_runtime \<Rightarrow> pyval \<Rightarrow> py_error + pyfloat" where
  "py_float rt (PInt i) = float_of_int i"
| "py_float rt (PFloat f) = Inr f"
| "py_float rt (PBool b) = Inr (Finite (if b then 1 else 0))"
| "py_float rt (PStr s) =
     (case float_of_str rt s of None \<Rightarrow> Inl (ValueError s) | Some f \<Rightarrow> Inr f)"
| "py_float rt _ = Inl TypeError"

text \<open>
  \<^verbatim>\<open>x / pow(10, n)\<close> for a float \<open>x\<close> and an integer \<open>n\<close>. When \<open>n\<close> is not negative the
  power is the integer \<open>10 ^ n\<close>, which the division converts to a float; otherwise it is
  the float \<^verbatim>\<open>10.0 ** n\<close>.
\<close>

definition divide_by_pow10 :: "py_runtime \<Rightarrow> pyfloat \<Rightarrow> int \<Rightarrow> py_error + pyfloat" where
  "divide_by_pow10 rt x n =
     (if 0 \<le> n then then_do (float_of_int (10 ^ nat n)) (\<lambda>d. float_div x d)
      else float_div x (pow10_neg rt n))"

text \<open>\<^verbatim>\<open>m[k]\<close> on one of the handler's tables, whose keys are strings, with any value as key.\<close>

fun table_lookup :: "(string \<rightharpoonup> 'v) \<Rightarrow> pyval \<Rightarrow> py_error + 'v" where
  "table_lookup m (PStr s) = (case m s of None \<Rightarrow> Inl (KeyError (PStr s)) | Some v \<Rightarrow> Inr v)"
| "table_lookup m (PList xs) = Inl TypeError"
| "table_lookup m (PDict kvs) = Inl TypeError"
| "table_lookup m k = Inl (KeyError k)"


section \<open>Market data model\<close>

text \<open>
  Modelled from the spec: the classes \<^verbatim>\<open>ExchangeInstrument\<close>, \<^verbatim>\<open>Trade\<close>, \<^verbatim>\<open>BookLevel\<close>,
  \<^verbatim>\<open>OrderBookSnapshot\<close>, \<^verbatim>\<open>OrderBookUpdate\<close> and \<^verbatim>\<open>OrderBook\<close> are declared outside the
  feedhandler modules. Each is a record of its constructor's arguments, in the order in
  which the feedhandler passes them, read back by the getters the feedhandler calls.
\<close>

record exchange_instrument =
  exchange_code :: string
  exchange_instrument_code :: string

datatype side = BUY | SELL

record trade =
  instrument :: exchange_instrument
  sequence_id :: pyval
  trade_id :: pyval
  trade_side :: side
  qty :: pyfloat
  price :: pyfloat

datatype feed_handler_state = INITIALIZING | STARTING | LIVE | STOPPED

type_synonym ref = nat

text \<open>
  The fields of \<^verbatim>\<open>WebsocketFeedHandler\<close> and \<^verbatim>\<open>PhemexFeedHandler\<close>. A signal object is
  known by its reference; the state signal is the sequence of values it has been given,
  oldest first.
\<close>

record feed_handler =
  uri_scheme :: string
  instance_id :: string
  instruments :: "exchange_instrument list"
  known_instrument_ids :: "string \<rightharpoonup> exchange_instrument"
  price_scaling :: "string \<rightharpoonup> int"
  state :: "feed_handler_state list"
  instrument_trades :: "string \<rightharpoonup> ref"
  instrument_order_book_events :: "string \<rightharpoonup> ref"
  instrument_order_books :: "string \<rightharpoonup> ref"
  include_symbol :: string


section \<open>Exchange message normalizer\<close>

text \<open>The body of the loop of \<^verbatim>\<open>__extract_trades\<close>, for one element of \<^verbatim>\<open>msg['trades']\<close>.\<close>

definition extract_trade ::
  "py_runtime \<Rightarrow> exchange_instrument \<Rightarrow> int \<Rightarrow> pyval \<Rightarrow> py_error + trade" where
  "extract_trade rt instr price_scale t =
     then_do (py_getitem_idx t 0) (\<lambda>tid.
     then_do (py_getitem_idx t 1) (\<lambda>t1.
     let sd = (if t1 = PStr ''Buy'' then BUY else SELL) in
     then_do (py_getitem_idx t 2) (\<lambda>t2.
     then_do (py_float rt t2) (\<lambda>f2.
     then_do (divide_by_pow10 rt f2 price_scale) (\<lambda>px.
     then_do (py_getitem_idx t 3) (\<lambda>t3.
     then_do (py_float rt t3) (\<lambda>q.
     Inr \<lparr>instrument = instr, sequence_id = tid, trade_id = tid,
          trade_side = sd, qty = q, price = px\<rparr>)))))))"

fun extract_loop ::
  "py_runtime \<Rightarrow> exchange_instrument \<Rightarrow> int \<Rightarrow> pyval list \<Rightarrow> trade list
     \<Rightarrow> py_error + trade list" where
  "extract_loop rt instr price_scale [] trade_list = Inr trade_list"
| "extract_loop rt instr price_scale (t # ts) trade_list =
     then_do (extract_trade rt instr price_scale t) (\<lambda>tr.
     extract_loop rt instr price_scale ts (trade_list @ [tr]))"

definition extract_trades ::
  "py_runtime \<Rightarrow> feed_handler \<Rightarrow> pyval \<Rightarrow> py_error + trade list" where
  "extract_trades rt fh msg =
     then_do (py_getitem_key msg ''symbol'') (\<lambda>sym.
     then_do (table_lookup (known_instrument_ids fh) sym) (\<lambda>instr.
     then_do (table_lookup (price_scaling fh) sym) (\<lambda>price_scale.
     then_do (py_getitem_key msg ''trades'') (\<lambda>trades.
     then_do (py_iter trades) (\<lambda>ts.
     extract_loop rt instr price_scale ts [])))))"

text \<open>
  The stages that \<^verbatim>\<open>_subscribe_trades_and_quotes\<close> wires behind the trade connection, for
  one inbound wire message: \<^verbatim>\<open>Map(json.loads)\<close>, the filter on
  \<^verbatim>\<open>x.get('type', None) == 'incremental'\<close>, \<^verbatim>\<open>Map(__extract_trades)\<close> and the flattening of
  the list. No stage has an exception handler, so an exception raised in a stage leaves
  the pipeline. \<^verbatim>\<open>json.loads\<close> is a parameter.
\<close>

fun py_get :: "pyval \<Rightarrow> string \<Rightarrow> py_error + pyval" where
  "py_get (PDict kvs) k = Inr (case map_of kvs k of None \<Rightarrow> PNone | Some v \<Rightarrow> v)"
| "py_get _ k = Inl AttributeError"

definition trade_pipeline ::
  "(string \<Rightarrow> py_error + pyval) \<Rightarrow> py_runtime \<Rightarrow> feed_handler \<Rightarrow> string
     \<Rightarrow> py_error + trade list" where
  "trade_pipeline loads rt fh raw =
     then_do (loads raw) (\<lambda>x.
     then_do (py_get x ''type'') (\<lambda>ty.
     if ty = PStr ''incremental'' then extract_trades rt fh x else Inr []))"


section \<open>Feeds and the object store\<close>

record feed =
  feed_instrument :: exchange_instrument
  trades :: ref
  order_book_events :: ref
  order_books :: ref

text \<open>
  What a call leaves behind outside the handler's own fields: log lines, signals attached
  to the network, updates scheduled on the state signal, and subscription tasks handed to
  the event loop with \<^verbatim>\<open>ensure_future\<close> (method, symbol, and the signal that will receive
  the raw messages). A task handed to the event loop has not run: the loop runs it after
  the caller has given up control. A subscription is established when its task, run by
  the loop, has connected and sent the subscribe request (method, symbol).
\<close>

datatype effect =
    LogInfo string
  | Attach ref
  | ScheduleState feed_handler_state
  | Subscribe string string ref
  | Established string string

text \<open>
  Objects have identity: a new object gets the next unused reference. \<open>feed_objs\<close> holds
  the \<^verbatim>\<open>Feed\<close> objects created so far.
\<close>

record world =
  next_ref :: ref
  feed_objs :: "ref \<rightharpoonup> feed"
  effects :: "effect list"

definition log_info :: "string \<Rightarrow> world \<Rightarrow> world" where
  "log_info s w = w\<lparr>effects := effects w @ [LogInfo s]\<rparr>"

text \<open>
  Modelled from the spec: the coroutine \<^verbatim>\<open>websocket_subscribe_with_retry\<close> of a subscription
  task is declared outside the feedhandler modules. When the event loop runs the task and
  the connection is made, the subscribe request is sent at once.
\<close>

definition run_subscription :: "string \<Rightarrow> string \<Rightarrow> world \<Rightarrow> world" where
  "run_subscription method s w = w\<lparr>effects := effects w @ [Established method s]\<rparr>"

text \<open>\<^verbatim>\<open>PhemexFeedHandler._create_feed\<close>.\<close>

definition create_feed ::
  "feed_handler \<Rightarrow> exchange_instrument \<Rightarrow> world \<Rightarrow> py_error + ref \<times> world" where
  "create_feed fh instr w =
     (let sym = exchange_instrument_code instr in
      then_do (table_lookup (instrument_trades fh) (PStr sym)) (\<lambda>t.
      then_do (table_lookup (instrument_order_book_events fh) (PStr sym)) (\<lambda>e.
      then_do (table_lookup (instrument_order_books fh) (PStr sym)) (\<lambda>b.
      let r = next_ref w in
      Inr (r, w\<lparr>next_ref := Suc r,
                 feed_objs := (feed_objs w)(r \<mapsto>
                   \<lparr>feed_instrument = instr, trades = t,
                    order_book_events = e, order_books = b\<rparr>)\<rparr>)))))"

text \<open>\<^verbatim>\<open>uri.split(':')\<close> and the unpacking of its result into three names.\<close>

fun split_on :: "char \<Rightarrow> string \<Rightarrow> string list" where
  "split_on c [] = [[]]"
| "split_on c (x # xs) =
     (if x = c then [] # split_on c xs
      else (case split_on c xs of [] \<Rightarrow> [[x]] | w # ws \<Rightarrow> (x # w) # ws))"

fun unpack3 :: "string list \<Rightarrow> py_error + string \<times> string \<times> string" where
  "unpack3 [a, b, c] = Inr (a, b, c)"
| "unpack3 _ = Inl (ValueError ''unpack'')"

text \<open>\<^verbatim>\<open>WebsocketFeedHandler.get_feed\<close>.\<close>

definition get_feed :: "feed_handler \<Rightarrow> string \<Rightarrow> world \<Rightarrow> py_error + ref \<times> world" where
  "get_feed fh uri w =
     then_do (unpack3 (split_on CHR '':'' uri)) (\<lambda>(scheme, inst, instrument_id).
     if scheme \<noteq> uri_scheme fh then Inl (ValueError (''Unsupported URI scheme: '' @ scheme))
     else if inst \<noteq> instance_id fh then Inl (ValueError (''Unsupported instance ID: '' @ inst))
     else if known_instrument_ids fh instrument_id = None
       then Inl (ValueError (''Unknown exchange Instrument: '' @ instrument_id))
     else
       then_do (table_lookup (known_instrument_ids fh) (PStr instrument_id)) (\<lambda>instr.
       create_feed fh instr (log_info (''Acquiring Feed for '' @ uri) w)))"


section \<open>Registry\<close>

record registry =
  fh_registry :: "string \<rightharpoonup> feed_handler"
  feeds :: "string \<rightharpoonup> ref"

definition registry_init :: registry where
  "registry_init = \<lparr>fh_registry = Map.empty, feeds = Map.empty\<rparr>"

definition get_fh_key :: "feed_handler \<Rightarrow> string" where
  "get_fh_key fh = uri_scheme fh @ '':'' @ instance_id fh"

definition register :: "registry \<Rightarrow> feed_handler \<Rightarrow> world \<Rightarrow> registry \<times> world" where
  "register reg fh w =
     (let fh_key = get_fh_key fh in
      (reg\<lparr>fh_registry := (fh_registry reg)(fh_key \<mapsto> fh)\<rparr>,
       log_info (''registered FeedHandler: '' @ fh_key) w))"

text \<open>
  The truth value of a handler object in \<^verbatim>\<open>if not fh\<close>. The handler classes define neither
  \<^verbatim>\<open>__bool__\<close> nor \<^verbatim>\<open>__len__\<close>, so every handler is true.
\<close>

definition handler_truthy :: "feed_handler \<Rightarrow> bool" where
  "handler_truthy fh = True"

text \<open>\<^verbatim>\<open>FeedHandlerRegistry.get_feed\<close>.\<close>

definition registry_get_feed ::
  "registry \<Rightarrow> string \<Rightarrow> world \<Rightarrow> py_error + ref \<times> registry \<times> world" where
  "registry_get_feed reg uri w =
     (case feeds reg uri of
        Some r \<Rightarrow> Inr (r, reg, w)
      | None \<Rightarrow>
          then_do (unpack3 (split_on CHR '':'' uri)) (\<lambda>(scheme, inst, instrument_id).
          then_do (table_lookup (fh_registry reg) (PStr (scheme @ '':'' @ inst))) (\<lambda>fh.
          if \<not> handler_truthy fh then Inl (ValueError (''Unknown FeedHandler URI: '' @ uri))
          else
            then_do (get_feed fh uri w) (\<lambda>(r, w').
            Inr (r, reg\<lparr>feeds := (feeds reg)(uri \<mapsto> r)\<rparr>, w')))))"

text \<open>
  The registries a program can get to from a given one: handlers are registered and feeds
  are requested, in any order. A request that raises leaves both dictionaries as they
  were, so only requests that return are steps.
\<close>

inductive reachable_from :: "registry \<Rightarrow> registry \<Rightarrow> bool" for reg0 :: registry where
  reach_here: "reachable_from reg0 reg0"
| reach_register: "reachable_from reg0 reg \<Longrightarrow> reachable_from reg0 (fst (register reg fh w))"
| reach_get_feed:
    "reachable_from reg0 reg \<Longrightarrow> registry_get_feed reg uri w = Inr (r, reg', w')
       \<Longrightarrow> reachable_from reg0 reg'"


section \<open>Order book builder\<close>

text \<open>
  Modelled from the spec: \<^verbatim>\<open>BookLevel\<close>, \<^verbatim>\<open>OrderBook\<close> and the two event classes are
  declared outside the feedhandler modules. A book level is a price and a quantity; an
  order book is built from a list of bids and a list of asks and gives them back; an event
  carries the instrument, the bid levels, the ask levels and the sequence number.
\<close>

record book_level =
  px :: pyfloat
  level_qty :: pyfloat

record order_book =
  bids :: "book_level list"
  asks :: "book_level list"

datatype order_book_event =
    OrderBookSnapshot exchange_instrument "book_level list" "book_level list" pyval
  | OrderBookUpdate exchange_instrument "book_level list" "book_level list" pyval

text \<open>
  \<^verbatim>\<open>OrderBookBuilder\<close>: the book it holds and the value it last published, if any.
\<close>

record order_book_builder =
  builder_book :: order_book
  published :: "order_book option"

definition OrderBookBuilder_init :: order_book_builder where
  "OrderBookBuilder_init = \<lparr>builder_book = \<lparr>bids = [], asks = []\<rparr>, published = None\<rparr>"

text \<open>
  \<^verbatim>\<open>OrderBookBuilder._call\<close>. The argument is the value of the events signal, \<open>None\<close> while
  the signal is not valid. \<^verbatim>\<open>OrderBook.apply_order_book_update\<close> is declared outside the
  feedhandler modules and is a parameter.
\<close>

definition OrderBookBuilder_call ::
  "(order_book \<Rightarrow> order_book_event \<Rightarrow> order_book) \<Rightarrow> order_book_builder
     \<Rightarrow> order_book_event option \<Rightarrow> order_book_builder" where
  "OrderBookBuilder_call apply_order_book_update b ev =
     (case ev of
        None \<Rightarrow> b
      | Some next_event \<Rightarrow>
          (let ob = (case next_event of
                       OrderBookSnapshot i bs as sq \<Rightarrow> \<lparr>bids = bs, asks = as\<rparr>
                     | OrderBookUpdate i bs as sq \<Rightarrow>
                         apply_order_book_update (builder_book b) next_event)
           in \<lparr>builder_book = ob, published = Some ob\<rparr>))"

text \<open>The builder after a sequence of valid events, oldest first.\<close>

definition build_book ::
  "(order_book \<Rightarrow> order_book_event \<Rightarrow> order_book) \<Rightarrow> order_book_builder
     \<Rightarrow> order_book_event list \<Rightarrow> order_book_builder" where
  "build_book apply_order_book_update b evs =
     foldl (\<lambda>b ev. OrderBookBuilder_call apply_order_book_update b (Some ev)) b evs"


section \<open>Tick journal\<close>

text \<open>
  Modelled from the spec: the appender of a journal is declared outside the feedhandler
  modules. A journal is a flat sequence of fields in the order of the writes, so the
  appender is the sequence of write calls made on it, oldest first, each with its
  argument.
\<close>

datatype journal_write =
    WriteDouble pyfloat
  | WriteLong pyval
  | WriteString string
  | WriteShort int

record trade_journal =
  trade_counter :: nat
  appender :: "journal_write list"

text \<open>
  \<^verbatim>\<open>SubscribeTrades.on_trade_print\<close>; the first argument is what
  \<^verbatim>\<open>datetime.utcnow().timestamp()\<close> returns at the call.
\<close>

definition on_trade_print :: "pyfloat \<Rightarrow> trade \<Rightarrow> trade_journal \<Rightarrow> trade_journal" where
  "on_trade_print now tr j =
     \<lparr>trade_counter = Suc (trade_counter j),
      appender = appender j @
        [WriteDouble now,
         WriteLong (trade_id tr),
         WriteLong (trade_id tr),
         WriteString (exchange_instrument_code (instrument tr)),
         WriteShort (if trade_side tr = BUY then 1 else 0),
         WriteDouble (qty tr),
         WriteDouble (price tr)]\<rparr>"

text \<open>
  The callback runs once for each value of the feed's trade signal: the journal after a
  sequence of trades, each with the clock reading at its arrival.
\<close>

fun journal_trades :: "(pyfloat \<times> trade) list \<Rightarrow> trade_journal \<Rightarrow> trade_journal" where
  "journal_trades [] j = j"
| "journal_trades ((now, tr) # rest) j = journal_trades rest (on_trade_print now tr j)"


section \<open>Handler lifecycle\<close>

text \<open>
  Modelled from the spec: the instrument cache is declared outside the feedhandler
  modules; for an exchange and a native symbol it returns the instrument of that exchange
  with that symbol. A product is an element of the list that the exchange returns, with
  the two fields the handler keeps: the symbol and the integer price scale. The log line
  of a product is shortened to its symbol.
\<close>

record phemex_product =
  p_symbol :: string
  p_priceScale :: int

fun load_instruments ::
  "phemex_product list \<Rightarrow> feed_handler \<Rightarrow> world \<Rightarrow> feed_handler \<times> world" where
  "load_instruments [] fh w = (fh, w)"
| "load_instruments (p # ps) fh w =
     (let sym = p_symbol p;
          exch_instrument = \<lparr>exchange_code = ''PHEMEX'', exchange_instrument_code = sym\<rparr>
      in load_instruments ps
           (fh\<lparr>known_instrument_ids := (known_instrument_ids fh)(sym \<mapsto> exch_instrument),
               instruments := instruments fh @ [exch_instrument],
               price_scaling := (price_scaling fh)(sym \<mapsto> p_priceScale p)\<rparr>)
           (log_info sym w))"

text \<open>
  \<^verbatim>\<open>PhemexFeedHandler.__init__\<close> with \<^verbatim>\<open>WebsocketFeedHandler.__init__\<close>: the instruments are
  loaded, the state signal is created with \<^verbatim>\<open>INITIALIZING\<close> and attached, the three signal
  tables start empty.
\<close>

definition PhemexFeedHandler_init ::
  "phemex_product list \<Rightarrow> string \<Rightarrow> string \<Rightarrow> world \<Rightarrow> feed_handler \<times> world" where
  "PhemexFeedHandler_init products incl inst w =
     (case load_instruments products
             \<lparr>uri_scheme = ''phemex'', instance_id = inst, instruments = [],
              known_instrument_ids = Map.empty, price_scaling = Map.empty, state = [],
              instrument_trades = Map.empty, instrument_order_book_events = Map.empty,
              instrument_order_books = Map.empty, include_symbol = incl\<rparr>
             (log_info ''Downloading supported products'' w) of
        (fh, w1) \<Rightarrow>
          (fh\<lparr>state := [INITIALIZING]\<rparr>,
           w1\<lparr>next_ref := Suc (next_ref w1),
              effects := effects w1 @ [Attach (next_ref w1)]\<rparr>))"

definition schedule_state ::
  "feed_handler_state \<Rightarrow> feed_handler \<Rightarrow> world \<Rightarrow> feed_handler \<times> world" where
  "schedule_state v fh w =
     (fh\<lparr>state := state fh @ [v]\<rparr>, w\<lparr>effects := effects w @ [ScheduleState v]\<rparr>)"

text \<open>
  The loop of \<^verbatim>\<open>PhemexFeedHandler._subscribe_trades_and_quotes\<close>. For an included symbol it
  creates the trade signal, the book event signal and the order book builder, attaches
  them, creates the two signals that receive raw messages and hands one subscription task
  for each to the event loop. The other nodes of the two pipelines are objects as well;
  references are given to the five objects that the handler's tables and the subscription
  tasks hold.
\<close>

fun subscribe_loop ::
  "exchange_instrument list \<Rightarrow> feed_handler \<Rightarrow> world \<Rightarrow> feed_handler \<times> world" where
  "subscribe_loop [] fh w = (fh, w)"
| "subscribe_loop (i # is) fh w =
     (let sym = exchange_instrument_code i in
      if sym = include_symbol fh \<or> include_symbol fh = ''*'' then
        (let r = next_ref w in
         subscribe_loop is
           (fh\<lparr>instrument_trades := (instrument_trades fh)(sym \<mapsto> r),
               instrument_order_book_events :=
                 (instrument_order_book_events fh)(sym \<mapsto> r + 1),
               instrument_order_books := (instrument_order_books fh)(sym \<mapsto> r + 2)\<rparr>)
           (w\<lparr>next_ref := r + 5,
              effects := effects w @
                [Attach r, Attach (r + 1), Attach (r + 2),
                 Subscribe ''trade.subscribe'' sym (r + 3),
                 Subscribe ''orderbook.subscribe'' sym (r + 4)]\<rparr>))
      else subscribe_loop is fh w)"

definition subscribe_trades_and_quotes :: "feed_handler \<Rightarrow> world \<Rightarrow> feed_handler \<times> world" where
  "subscribe_trades_and_quotes fh w =
     (case subscribe_loop (instruments fh) fh w of (fh1, w1) \<Rightarrow> schedule_state LIVE fh1 w1)"

text \<open>\<^verbatim>\<open>WebsocketFeedHandler.start\<close>.\<close>

definition start :: "feed_handler \<Rightarrow> world \<Rightarrow> feed_handler \<times> world" where
  "start fh w =
     (case schedule_state STARTING fh w of (fh1, w1) \<Rightarrow> subscribe_trades_and_quotes fh1 w1)"



section \<open>Order book event extraction\<close>

text \<open>
  \<^verbatim>\<open>__extract_order_book_event\<close> with its local function \<^verbatim>\<open>to_book_level_list\<close>, and the
  stages wired behind the order book connection: \<^verbatim>\<open>Map(json.loads)\<close>, the filter on
  \<^verbatim>\<open>x.get('type', None) in ['incremental', 'snapshot']\<close> and \<^verbatim>\<open>Map(__extract_order_book_event)\<close>.
  The result is \<open>None\<close> for a message that the filter stops.
\<close>

fun book_level_loop ::
  "py_runtime \<Rightarrow> int \<Rightarrow> pyval list \<Rightarrow> book_level list
     \<Rightarrow> py_error + book_level list" where
  "book_level_loop rt price_scale [] book_levels = Inr book_levels"
| "book_level_loop rt price_scale (px_qty # rest) book_levels =
     then_do (py_getitem_idx px_qty 0) (\<lambda>p0.
     then_do (py_float rt p0) (\<lambda>f0.
     then_do (divide_by_pow10 rt f0 price_scale) (\<lambda>p.
     then_do (py_getitem_idx px_qty 1) (\<lambda>q1.
     then_do (py_float rt q1) (\<lambda>q.
     book_level_loop rt price_scale rest
       (book_levels @ [\<lparr>px = p, level_qty = q\<rparr>]))))))"

definition to_book_level_list ::
  "py_runtime \<Rightarrow> int \<Rightarrow> pyval \<Rightarrow> py_error + book_level list" where
  "to_book_level_list rt price_scale px_qty_list =
     then_do (py_iter px_qty_list) (\<lambda>xs. book_level_loop rt price_scale xs [])"

definition extract_order_book_event ::
  "py_runtime \<Rightarrow> feed_handler \<Rightarrow> pyval \<Rightarrow> py_error + order_book_event" where
  "extract_order_book_event rt fh msg =
     then_do (py_getitem_key msg ''symbol'') (\<lambda>sym.
     then_do (py_getitem_key msg ''sequence'') (\<lambda>seq_num.
     then_do (py_getitem_key msg ''type'') (\<lambda>msg_type.
     then_do (table_lookup (known_instrument_ids fh) sym) (\<lambda>instr.
     then_do (table_lookup (price_scaling fh) sym) (\<lambda>price_scale.
     then_do (py_getitem_key msg ''book'') (\<lambda>book.
     then_do (py_getitem_key book ''bids'') (\<lambda>raw_bids.
     then_do (to_book_level_list rt price_scale raw_bids) (\<lambda>bs.
     then_do (py_getitem_key book ''asks'') (\<lambda>raw_asks.
     then_do (to_book_level_list rt price_scale raw_asks) (\<lambda>as.
     Inr (if msg_type = PStr ''snapshot''
          then OrderBookSnapshot instr bs as seq_num
          else OrderBookUpdate instr bs as seq_num)))))))))))"

definition order_book_pipeline ::
  "(string \<Rightarrow> py_error + pyval) \<Rightarrow> py_runtime \<Rightarrow> feed_handler \<Rightarrow> string
     \<Rightarrow> py_error + order_book_event option" where
  "order_book_pipeline loads rt fh raw =
     then_do (loads raw) (\<lambda>x.
     then_do (py_get x ''type'') (\<lambda>ty.
     if ty = PStr ''incremental'' \<or> ty = PStr ''snapshot''
     then then_do (extract_order_book_event rt fh x) (\<lambda>ev. Inr (Some ev))
     else Inr None))"


section \<open>Vocabulary of the properties\<close>

text \<open>
  A raw trade tuple as the exchange sends it: trade id, side, scaled integer price and a
  quantity that is a JSON number.
\<close>

definition raw_trade :: "pyval \<times> pyval \<times> int \<times> pyval \<Rightarrow> pyval" where
  "raw_trade t = (case t of (tid, sv, p, q) \<Rightarrow> PList [tid, sv, PInt p, q])"

text \<open>
  The range in which the conversions of the decoder are exact: an integer of magnitude up
  to \<open>2 ^ 53\<close> is a double, and so is a power of ten up to \<open>10 ^ 22\<close>.
\<close>

definition price_in_range :: "int \<Rightarrow> bool" where
  "price_in_range p \<longleftrightarrow> \<bar>p\<bar> \<le> 2 ^ 53"

definition scale_in_range :: "int \<Rightarrow> bool" where
  "scale_in_range sc \<longleftrightarrow> 0 \<le> sc \<and> sc \<le> 22"

fun quantity_in_range :: "pyval \<Rightarrow> bool" where
  "quantity_in_range (PInt i) = (\<bar>i\<bar> \<le> 2 ^ 53)"
| "quantity_in_range (PFloat f) = True"
| "quantity_in_range _ = False"

fun quantity_value :: "pyval \<Rightarrow> pyfloat" where
  "quantity_value (PInt i) = Finite (real_of_int i)"
| "quantity_value (PFloat f) = f"
| "quantity_value _ = NaN"

definition tuple_in_range :: "pyval \<times> pyval \<times> int \<times> pyval \<Rightarrow> bool" where
  "tuple_in_range t = (case t of (tid, sv, p, q) \<Rightarrow> price_in_range p \<and> quantity_in_range q)"

text \<open>The three signals of a symbol exist in the handler's tables.\<close>

definition signals_created :: "feed_handler \<Rightarrow> string \<Rightarrow> bool" where
  "signals_created fh s \<longleftrightarrow>
     instrument_trades fh s \<noteq> None \<and> instrument_order_book_events fh s \<noteq> None
     \<and> instrument_order_books fh s \<noteq> None"

text \<open>
  The layout of a trade record in the journal, in the words of the interface description:
  timestamp, trade id, trade id again, instrument code, side flag (1 for a buy, 0 for a
  sell), quantity, price.
\<close>

definition spec_trade_record :: "pyfloat \<Rightarrow> trade \<Rightarrow> journal_write list" where
  "spec_trade_record now tr =
     [WriteDouble now, WriteLong (trade_id tr), WriteLong (trade_id tr),
      WriteString (exchange_instrument_code (instrument tr)),
      WriteShort (case trade_side tr of BUY \<Rightarrow> 1 | SELL \<Rightarrow> 0),
      WriteDouble (qty tr), WriteDouble (price tr)]"

text \<open>Every cached feed belongs to a URI whose handler is registered.\<close>

definition feeds_have_handlers :: "registry \<Rightarrow> bool" where
  "feeds_have_handlers reg \<longleftrightarrow>
     (\<forall>uri r. feeds reg uri = Some r \<longrightarrow>
        (\<exists>a b c fh. split_on CHR '':'' uri = [a, b, c]
            \<and> fh_registry reg (a @ '':'' @ b) = Some fh))"

text \<open>
  A concrete run: a handler for the production instance that discovers one product,
  \<^verbatim>\<open>BTCUSD\<close> with price scale 4; the same handler after \<^verbatim>\<open>start\<close>; a registry holding it.
\<close>

definition world_init :: world where
  "world_init = \<lparr>next_ref = 0, feed_objs = Map.empty, effects = []\<rparr>"

definition sample_products :: "phemex_product list" where
  "sample_products = [\<lparr>p_symbol = ''BTCUSD'', p_priceScale = 4\<rparr>]"

definition sample_fh :: feed_handler where
  "sample_fh = fst (PhemexFeedHandler_init sample_products ''*'' ''prod'' world_init)"

definition sample_world :: world where
  "sample_world = snd (PhemexFeedHandler_init sample_products ''*'' ''prod'' world_init)"

definition live_fh :: feed_handler where
  "live_fh = fst (start sample_fh sample_world)"

definition live_world :: world where
  "live_world = snd (start sample_fh sample_world)"

definition live_reg :: registry where
  "live_reg = fst (register registry_init live_fh live_world)"

definition btcusd :: exchange_instrument where
  "btcusd = \<lparr>exchange_code = ''PHEMEX'', exchange_instrument_code = ''BTCUSD''\<rparr>"

text \<open>
  A runtime for the concrete run, in which no string is a float and the negative powers
  of ten are the rounded exact values.
\<close>

definition sample_rt :: py_runtime where
  "sample_rt = \<lparr>float_of_str = (\<lambda>s. None), pow10_neg = (\<lambda>n. round_double (10 powi n))\<rparr>"



text \<open>The world and the registry after the first acquisition of the sample feed.\<close>

definition acquired_world :: world where
  "acquired_world =
     live_world\<lparr>next_ref := 7,
        feed_objs := [6 \<mapsto> \<lparr>feed_instrument = btcusd, trades = 1,
                            order_book_events = 2, order_books = 3\<rparr>],
        effects := effects live_world @ [LogInfo ''Acquiring Feed for phemex:prod:BTCUSD'']\<rparr>"

definition acquired_reg :: registry where
  "acquired_reg = live_reg\<lparr>feeds := [''phemex:prod:BTCUSD'' \<mapsto> 6]\<rparr>"

text \<open>The live handler after \<^verbatim>\<open>start\<close> has run on it once more.\<close>

definition restarted_fh :: feed_handler where
  "restarted_fh = fst (start live_fh acquired_world)"

definition restarted_world :: world where
  "restarted_world = snd (start live_fh acquired_world)"

text \<open>The feed object that a request has returned, if it has returned one.\<close>

definition returned_feed :: "py_error + ref \<times> world \<Rightarrow> feed option" where
  "returned_feed res = (case res of Inl e \<Rightarrow> None | Inr (r, w) \<Rightarrow> feed_objs w r)"


text \<open>
  A message is dropped when its processing ends without an exception and emits no trade.
\<close>

definition dropped :: "py_error + trade list \<Rightarrow> bool" where
  "dropped r \<longleftrightarrow> r = Inr []"

text \<open>
  \<^verbatim>\<open>json.loads\<close> on three payloads: an empty object, an object that has only a type, and
  text that is not JSON. On any other text this function is not \<^verbatim>\<open>json.loads\<close>; it is
  used on these three only.
\<close>

definition sample_loads :: "string \<Rightarrow> py_error + pyval" where
  "sample_loads raw =
     (if raw = ''{}'' then Inr (PDict [])
      else if raw = ''{\"type\": \"incremental\"}''
        then Inr (PDict [(''type'', PStr ''incremental'')])
      else Inl JSONDecodeError)"

text \<open>The order of the lifecycle states, and a state sequence that never steps back.\<close>

fun state_rank :: "feed_handler_state \<Rightarrow> nat" where
  "state_rank INITIALIZING = 0"
| "state_rank STARTING = 1"
| "state_rank LIVE = 2"
| "state_rank STOPPED = 3"

definition forward_only :: "feed_handler_state list \<Rightarrow> bool" where
  "forward_only xs \<longleftrightarrow> sorted (map state_rank xs)"

fun is_schedule :: "effect \<Rightarrow> bool" where
  "is_schedule (ScheduleState v) = True"
| "is_schedule _ = False"

fun is_subscribe :: "effect \<Rightarrow> bool" where
  "is_subscribe (Subscribe method s r) = True"
| "is_subscribe _ = False"

fun is_established :: "effect \<Rightarrow> bool" where
  "is_established (Established method s) = True"
| "is_established _ = False"

text \<open>The symbol filter of \<^verbatim>\<open>_subscribe_trades_and_quotes\<close>.\<close>

definition included :: "feed_handler \<Rightarrow> exchange_instrument \<Rightarrow> bool" where
  "included fh i \<longleftrightarrow>
     exchange_instrument_code i = include_symbol fh \<or> include_symbol fh = ''*''"


section \<open>Basic facts\<close>

lemma then_do_Inr_iff:
  "then_do r f = Inr y \<longleftrightarrow> (\<exists>v. r = Inr v \<and> f v = Inr y)"
  by (cases r) (simp_all add: then_do_def)

lemma unpack3_Inr_iff: "unpack3 xs = Inr (a, b, c) \<longleftrightarrow> xs = [a, b, c]"
  by (cases xs rule: unpack3.cases) simp_all

lemma table_lookup_str: "table_lookup m (PStr s) = Inr v \<longleftrightarrow> m s = Some v"
  by (simp split: option.splits)

subsection \<open>Rounding to a double\<close>

lemma round_even_of_int: "round_even (of_int z) = z"
  by (simp add: round_even_def)

lemma round_even_ge_floor: "\<lfloor>r\<rfloor> \<le> round_even r"
  by (simp add: round_even_def Let_def)

lemma round_even_le_ceiling: "round_even r \<le> \<lceil>r\<rceil>"
proof (cases "r = of_int \<lfloor>r\<rfloor>")
  case True
  then have "round_even r = \<lfloor>r\<rfloor>" by (metis round_even_of_int)
  then show ?thesis by simp
next
  case False
  then have "\<lceil>r\<rceil> = \<lfloor>r\<rfloor> + 1" by (simp add: ceiling_altdef)
  then show ?thesis by (simp add: round_even_def Let_def)
qed

lemma round_even_abs_ge:
  assumes "of_int n \<le> \<bar>r\<bar>"
  shows "n \<le> \<bar>round_even r\<bar>"
proof (cases "0 \<le> r")
  case True
  with assms have "n \<le> \<lfloor>r\<rfloor>" by (simp add: le_floor_iff)
  with round_even_ge_floor [of r] show ?thesis by linarith
next
  case False
  with assms have "r \<le> of_int (- n)" by simp
  then have "\<lceil>r\<rceil> \<le> - n" by (simp only: ceiling_le_iff)
  with round_even_le_ceiling [of r] show ?thesis by linarith
qed

lemma ilog2_bounds:
  assumes "0 < x"
  shows "2 powi ilog2 x \<le> x \<and> x < 2 powi (ilog2 x + 1)"
proof (cases "1 \<le> x")
  case True
  define n where "n = nat \<lfloor>x\<rfloor>"
  define f where "f = floorlog 2 n"
  have n1: "1 \<le> n" using True by (simp add: n_def le_nat_iff le_floor_iff)
  then have n0: "0 < n" by simp
  from floorlog_bounds [of n 2] n0
  have b: "2 ^ (f - 1) \<le> n" "n < 2 ^ f" by (simp_all add: f_def)
  have f1: "1 \<le> f" using n0 by (simp add: f_def floorlog_def)
  have nx: "real n \<le> x" using True by (simp add: n_def)
  have xn: "x < real n + 1" using True by (simp add: n_def)
  have L: "ilog2 x = int (f - 1)" using True f1 by (simp add: ilog2_def n_def f_def)
  have "(2::real) ^ (f - 1) \<le> real n" using of_nat_mono [OF b(1), where ?'a = real] by simp
  with nx have lo: "(2::real) ^ (f - 1) \<le> x" by linarith
  have "n + 1 \<le> 2 ^ f" using b(2) by simp
  from of_nat_mono [OF this, where ?'a = real] have "real n + 1 \<le> 2 ^ f" by simp
  with xn have hi: "x < 2 ^ f" by linarith
  have e1: "(2::real) powi int (f - 1) = 2 ^ (f - 1)" by (rule power_int_of_nat)
  have "int (f - 1) + 1 = int f" using f1 by simp
  then have e2: "(2::real) powi (int (f - 1) + 1) = 2 ^ f" by (simp only: power_int_of_nat)
  show ?thesis unfolding L e1 e2 using lo hi by blast
next
  case False
  define y where "y = 1 / x"
  define m where "m = \<lceil>y\<rceil>"
  define k where "k = floorlog 2 (nat (m - 1))"
  have y1: "1 < y" using False assms by (simp add: y_def)
  then have "1 < m" unfolding m_def by (simp add: less_ceiling_iff)
  then have m2: "2 \<le> m" by simp
  then have p: "0 < nat (m - 1)" by simp
  from floorlog_bounds [of "nat (m - 1)" 2] p
  have b: "2 ^ (k - 1) \<le> nat (m - 1)" "nat (m - 1) < 2 ^ k" by (simp_all add: k_def)
  have k1: "1 \<le> k" using p by (simp add: k_def floorlog_def)
  have L: "ilog2 x = - int k" using False by (simp add: ilog2_def k_def m_def y_def)
  have ym: "y \<le> of_int m" unfolding m_def by simp
  have my: "of_int m - 1 < y" unfolding m_def by linarith
  have "m - 1 < 2 ^ k" using b(2) m2 by (simp add: nat_less_iff)
  then have "m \<le> 2 ^ k" by simp
  then have "real_of_int m \<le> real_of_int (2 ^ k)" by (simp only: of_int_le_iff)
  then have "real_of_int m \<le> 2 ^ k" by simp
  with ym have yk: "y \<le> 2 ^ k" by linarith
  have "2 ^ (k - 1) \<le> m - 1" using b(1) m2 by (simp add: le_nat_iff)
  then have "real_of_int (2 ^ (k - 1)) \<le> real_of_int (m - 1)" by (simp only: of_int_le_iff)
  then have "(2::real) ^ (k - 1) \<le> real_of_int (m - 1)" by simp
  with my have ky: "2 ^ (k - 1) < y" by simp
  have xy: "x = inverse y" using assms by (simp add: y_def)
  have ypos: "0 < y" using y1 by simp
  have lo: "inverse (2 ^ k) \<le> x"
    unfolding xy using yk ypos by (rule le_imp_inverse_le)
  have kpos: "(0::real) < 2 ^ (k - 1)" by simp
  have hi: "x < inverse (2 ^ (k - 1))"
    unfolding xy using ky kpos by (rule less_imp_inverse_less)
  have e1: "(2::real) powi (- int k) = inverse (2 ^ k)"
    by (simp only: power_int_minus power_int_of_nat)
  have "- int k + 1 = - int (k - 1)" using k1 by simp
  then have e2: "(2::real) powi (- int k + 1) = inverse (2 ^ (k - 1))"
    by (simp only: power_int_minus power_int_of_nat)
  show ?thesis unfolding L e1 e2 using lo hi by blast
qed

lemma double_exponent_le:
  assumes "x = of_int k * 2 ^ j" and "k \<noteq> 0" and "\<bar>k\<bar> < 2 ^ 53"
  shows "double_exponent x \<le> int j"
proof -
  have pos: "0 < \<bar>x\<bar>" using assms by simp
  have "\<bar>x\<bar> = \<bar>of_int k\<bar> * 2 ^ j" using assms(1) by (simp add: abs_mult)
  also have "\<dots> < 2 ^ 53 * 2 ^ j"
  proof -
    have "\<bar>of_int k :: real\<bar> < 2 ^ 53"
      using assms(3) by (metis of_int_abs of_int_less_numeral_power_cancel_iff)
    then show ?thesis by simp
  qed
  finally have lt: "\<bar>x\<bar> < 2 ^ (53 + j)" by (simp add: power_add)
  have "ilog2 \<bar>x\<bar> < int (53 + j)"
  proof (rule ccontr)
    assume "\<not> ilog2 \<bar>x\<bar> < int (53 + j)"
    then have "int (53 + j) \<le> ilog2 \<bar>x\<bar>" by simp
    then have "(2::real) powi int (53 + j) \<le> 2 powi ilog2 \<bar>x\<bar>"
      by (intro power_int_increasing) simp_all
    also have "\<dots> \<le> \<bar>x\<bar>" using ilog2_bounds [OF pos] by blast
    finally have "(2::real) ^ (53 + j) \<le> \<bar>x\<bar>" by (simp only: power_int_of_nat)
    with lt show False by simp
  qed
  then show ?thesis by (simp add: double_exponent_def)
qed

text \<open>A number with a significand of at most 53 bits is its own rounding.\<close>

lemma round_double_exact:
  assumes x: "x = of_int k * 2 ^ j" and k: "\<bar>k\<bar> < 2 ^ 53" and r: "\<bar>x\<bar> < 2 ^ 1024"
  shows "round_double x = Finite x"
proof (cases "k = 0")
  case True
  then show ?thesis using x by (simp add: round_double_def)
next
  case False
  define e where "e = double_exponent x"
  have le: "e \<le> int j" unfolding e_def using x False k by (rule double_exponent_le)
  then obtain d where d: "int j = e + int d"
    by (metis zle_iff_zadd)
  have "(2::real) ^ j = 2 powi (int j)" by simp
  also have "\<dots> = 2 powi e * 2 ^ d" unfolding d by (simp add: power_int_add)
  finally have pj: "(2::real) ^ j = 2 powi e * 2 ^ d" .
  have q: "x / 2 powi e = of_int (k * 2 ^ d)"
    unfolding x pj by simp
  have y: "of_int (round_even (x / 2 powi e)) * 2 powi e = x"
    unfolding q round_even_of_int unfolding x pj by simp
  have nz: "x \<noteq> 0" using x False by simp
  show ?thesis
    using nz r unfolding round_double_def Let_def e_def [symmetric] y by simp
qed

lemma round_double_int:
  assumes "\<bar>i\<bar> \<le> 2 ^ 53"
  shows "round_double (of_int i) = Finite (of_int i)"
proof (cases "\<bar>i\<bar> = 2 ^ 53")
  case True
  then have "i = 2 ^ 53 \<or> i = - (2 ^ 53)" by linarith
  then show ?thesis
  proof
    assume i: "i = 2 ^ 53"
    show ?thesis
      by (rule round_double_exact [where k = 1 and j = 53]) (simp_all add: i)
  next
    assume i: "i = - (2 ^ 53)"
    show ?thesis
      by (rule round_double_exact [where k = "-1" and j = 53]) (simp_all add: i)
  qed
next
  case False
  with assms have lt: "\<bar>i\<bar> < 2 ^ 53" by linarith
  have "\<bar>of_int i :: real\<bar> < 2 ^ 53"
    using lt by (metis of_int_abs of_int_less_numeral_power_cancel_iff)
  also have "\<dots> < 2 ^ 1024" by simp
  finally have r: "\<bar>of_int i :: real\<bar> < 2 ^ 1024" .
  show ?thesis
    by (rule round_double_exact [where k = i and j = 0]) (use lt r in simp_all)
qed

lemma round_double_pow10:
  assumes "n \<le> 22"
  shows "round_double (10 ^ n) = Finite (10 ^ n)"
proof (rule round_double_exact [where k = "5 ^ n" and j = n])
  show "(10::real) ^ n = of_int (5 ^ n) * 2 ^ n"
    by (simp add: power_mult_distrib [symmetric])
  have "(5::int) ^ n \<le> 5 ^ 22" using assms by (intro power_increasing) simp_all
  also have "\<dots> < 2 ^ 53" by simp
  finally show "\<bar>5 ^ n :: int\<bar> < 2 ^ 53" by simp
  have "(10::real) ^ n \<le> 10 ^ 22" using assms by (intro power_increasing) simp_all
  also have "\<dots> < 2 ^ 1024" by simp
  finally show "\<bar>(10::real) ^ n\<bar> < 2 ^ 1024" by simp
qed

text \<open>A number of magnitude \<open>2 ^ 1024\<close> or more rounds to an infinity.\<close>

lemma round_double_overflow:
  assumes "2 ^ 1024 \<le> \<bar>x\<bar>"
  shows "round_double x = (if 0 < x then PosInf else NegInf)"
proof -
  define L where "L = ilog2 \<bar>x\<bar>"
  have pos: "0 < \<bar>x\<bar>" using assms by (smt (verit) zero_less_power)
  have low: "2 powi L \<le> \<bar>x\<bar>" and up: "\<bar>x\<bar> < 2 powi (L + 1)"
    unfolding L_def using ilog2_bounds [OF pos] by blast+
  have L: "1024 \<le> L"
  proof (rule ccontr)
    assume "\<not> 1024 \<le> L"
    then have "L + 1 \<le> 1024" by simp
    then have "(2::real) powi (L + 1) \<le> 2 powi 1024"
      by (intro power_int_increasing) simp_all
    with up have "\<bar>x\<bar> < 2 powi 1024" by simp
    with assms show False by simp
  qed
  then have e: "double_exponent x = L - 52" by (simp add: double_exponent_def L_def)
  have split: "(2::real) powi L = 2 ^ 52 * 2 powi (L - 52)"
    using power_int_add [of "2::real" 52 "L - 52"] by simp
  have p: "(0::real) < 2 powi (L - 52)" by simp
  have "of_int (2 ^ 52) \<le> \<bar>x / 2 powi (L - 52)\<bar>"
    using low p unfolding split by (simp add: pos_le_divide_eq abs_mult)
  then have "2 ^ 52 \<le> \<bar>round_even (x / 2 powi (L - 52))\<bar>" by (rule round_even_abs_ge)
  then have "(2::real) ^ 52 \<le> \<bar>of_int (round_even (x / 2 powi (L - 52)))\<bar>"
    by (metis of_int_abs of_int_le_iff of_int_numeral of_int_power)
  then have "(2::real) ^ 52 * 2 powi (L - 52)
      \<le> \<bar>real_of_int (round_even (x / 2 powi (L - 52)))\<bar> * 2 powi (L - 52)"
    using p by (intro mult_right_mono) simp_all
  then have big: "(2::real) powi L
      \<le> \<bar>real_of_int (round_even (x / 2 powi (L - 52))) * 2 powi (L - 52)\<bar>"
    unfolding split by (simp add: abs_mult)
  have "(2::real) ^ 1024 = 2 powi 1024" by simp
  also have "\<dots> \<le> 2 powi L" using L by (intro power_int_increasing) simp_all
  finally have "(2::real) ^ 1024
      \<le> \<bar>real_of_int (round_even (x / 2 powi (L - 52))) * 2 powi (L - 52)\<bar>"
    using big by linarith
  moreover have "x \<noteq> 0" using pos by simp
  ultimately show ?thesis
    unfolding round_double_def Let_def e by simp
qed

subsection \<open>Conversions and division of the decoder\<close>

lemma float_of_int_exact:
  "\<bar>i\<bar> \<le> 2 ^ 53 \<Longrightarrow> float_of_int i = Inr (Finite (real_of_int i))"
  by (simp add: float_of_int_def round_double_int)

lemma float_of_int_overflow:
  assumes "2 ^ 1024 \<le> \<bar>i\<bar>"
  shows "float_of_int i = Inl OverflowError"
proof -
  have "(2::real) ^ 1024 \<le> \<bar>real_of_int i\<bar>"
    using assms by (metis of_int_abs of_int_le_iff of_int_numeral of_int_power)
  then show ?thesis
    by (simp add: float_of_int_def round_double_overflow)
qed

lemma divide_by_pow10_exact:
  assumes "scale_in_range sc"
  shows "divide_by_pow10 rt (Finite x) sc = Inr (round_double (x / 10 ^ nat sc))"
proof -
  have nn: "0 \<le> sc" and "sc \<le> 22"
    using assms by (simp_all add: scale_in_range_def)
  then have n: "nat sc \<le> 22" by linarith
  have "float_of_int (10 ^ nat sc) = Inr (Finite (10 ^ nat sc))"
    using round_double_pow10 [OF n] by (simp add: float_of_int_def)
  then show ?thesis
    using nn by (simp add: divide_by_pow10_def then_do_def float_div_def)
qed

text \<open>
  Outside the range the decoder raises: a price scale from 309 on makes the power of ten
  too large for a float, and a negative price scale whose power of ten is the float zero
  makes the division fail.
\<close>

lemma divide_by_pow10_overflow:
  assumes "309 \<le> n"
  shows "divide_by_pow10 rt x n = Inl OverflowError"
proof -
  have "(2::int) ^ 1024 \<le> 10 ^ 309" by simp
  also have "\<dots> \<le> 10 ^ nat n" using assms by (intro power_increasing) simp_all
  finally have "(2::int) ^ 1024 \<le> \<bar>10 ^ nat n\<bar>" by simp
  then have "float_of_int (10 ^ nat n) = Inl OverflowError"
    by (rule float_of_int_overflow)
  then show ?thesis using assms by (simp add: divide_by_pow10_def then_do_def)
qed

lemma divide_by_pow10_zero:
  "n < 0 \<Longrightarrow> pow10_neg rt n = Finite 0 \<Longrightarrow> divide_by_pow10 rt x n = Inl ZeroDivisionError"
  by (simp add: divide_by_pow10_def float_div_def)

subsection \<open>The concrete run, evaluated\<close>

lemma sample_fh_eq:
  "sample_fh = \<lparr>uri_scheme = ''phemex'', instance_id = ''prod'',
       instruments = [btcusd],
       known_instrument_ids = [''BTCUSD'' \<mapsto> btcusd],
       price_scaling = [''BTCUSD'' \<mapsto> 4], state = [INITIALIZING],
       instrument_trades = Map.empty, instrument_order_book_events = Map.empty,
       instrument_order_books = Map.empty, include_symbol = ''*''\<rparr>"
  by (simp add: sample_fh_def sample_products_def world_init_def PhemexFeedHandler_init_def
        log_info_def Let_def btcusd_def)

lemma sample_world_eq:
  "sample_world = \<lparr>next_ref = 1, feed_objs = Map.empty,
      effects = [LogInfo ''Downloading supported products'', LogInfo ''BTCUSD'', Attach 0]\<rparr>"
  by (simp add: sample_world_def sample_products_def world_init_def PhemexFeedHandler_init_def
        log_info_def Let_def)

lemma live_fh_eq:
  "live_fh = \<lparr>uri_scheme = ''phemex'', instance_id = ''prod'',
       instruments = [btcusd],
       known_instrument_ids = [''BTCUSD'' \<mapsto> btcusd],
       price_scaling = [''BTCUSD'' \<mapsto> 4], state = [INITIALIZING, STARTING, LIVE],
       instrument_trades = [''BTCUSD'' \<mapsto> 1],
       instrument_order_book_events = [''BTCUSD'' \<mapsto> 2],
       instrument_order_books = [''BTCUSD'' \<mapsto> 3], include_symbol = ''*''\<rparr>"
  unfolding live_fh_def sample_fh_eq sample_world_eq
  by (simp add: start_def subscribe_trades_and_quotes_def schedule_state_def Let_def
        eval_nat_numeral btcusd_def)

lemma live_world_eq:
  "live_world = \<lparr>next_ref = 6, feed_objs = Map.empty,
      effects = [LogInfo ''Downloading supported products'', LogInfo ''BTCUSD'', Attach 0,
                 ScheduleState STARTING, Attach 1, Attach 2, Attach 3,
                 Subscribe ''trade.subscribe'' ''BTCUSD'' 4,
                 Subscribe ''orderbook.subscribe'' ''BTCUSD'' 5,
                 ScheduleState LIVE]\<rparr>"
  unfolding live_world_def sample_fh_eq sample_world_eq
  by (simp add: start_def subscribe_trades_and_quotes_def schedule_state_def Let_def
        eval_nat_numeral btcusd_def)

lemma split_sample_uri:
  "split_on CHR '':'' ''phemex:prod:BTCUSD'' = [''phemex'', ''prod'', ''BTCUSD'']"
  by simp

lemma get_feed_fresh_handler:
  "get_feed sample_fh ''phemex:prod:BTCUSD'' sample_world = Inl (KeyError (PStr ''BTCUSD''))"
  unfolding sample_fh_eq
  by (simp add: get_feed_def then_do_def create_feed_def Let_def btcusd_def)

lemma get_feed_live_handler:
  "get_feed live_fh ''phemex:prod:BTCUSD'' live_world =
     Inr (6, live_world\<lparr>next_ref := 7,
        feed_objs := [6 \<mapsto> \<lparr>feed_instrument = btcusd, trades = 1,
                            order_book_events = 2, order_books = 3\<rparr>],
        effects := effects live_world @ [LogInfo ''Acquiring Feed for phemex:prod:BTCUSD'']\<rparr>)"
  unfolding live_fh_eq live_world_eq
  by (simp add: get_feed_def then_do_def create_feed_def Let_def log_info_def btcusd_def)


section \<open>Trade extraction\<close>

lemma py_float_quantity:
  "quantity_in_range q \<Longrightarrow> py_float rt q = Inr (quantity_value q)"
  by (cases q) (simp_all add: float_of_int_exact)

lemma extract_trade_raw:
  assumes "tuple_in_range t" and "scale_in_range sc"
  shows "extract_trade rt instr sc (raw_trade t) =
     Inr \<lparr>instrument = instr, sequence_id = fst t, trade_id = fst t,
          trade_side = (if fst (snd t) = PStr ''Buy'' then BUY else SELL),
          qty = quantity_value (snd (snd (snd t))),
          price = round_double (real_of_int (fst (snd (snd t))) / 10 ^ nat sc)\<rparr>"
proof -
  obtain tid sv p q where t: "t = (tid, sv, p, q)" by (cases t)
  have p: "float_of_int p = Inr (Finite (real_of_int p))"
    using assms(1) by (simp add: t tuple_in_range_def price_in_range_def float_of_int_exact)
  have q: "py_float rt q = Inr (quantity_value q)"
    using assms(1) by (simp add: t tuple_in_range_def py_float_quantity)
  show ?thesis
    by (simp add: t extract_trade_def raw_trade_def then_do_def p q
          divide_by_pow10_exact [OF assms(2)])
qed

text \<open>A raw integer price beyond the doubles makes the decoder raise.\<close>

lemma extract_trade_overflow:
  "extract_trade rt instr sc (PList [tid, sv, PInt (10 ^ 309), q]) = Inl OverflowError"
proof -
  have "(2::int) ^ 1024 \<le> \<bar>10 ^ 309\<bar>" by simp
  then have "float_of_int (10 ^ 309) = Inl OverflowError"
    by (rule float_of_int_overflow)
  then show ?thesis
    by (simp add: extract_trade_def then_do_def)
qed

lemma extract_loop_raw:
  assumes "scale_in_range sc"
  shows "\<forall>t \<in> set ts. tuple_in_range t \<Longrightarrow>
   extract_loop rt instr sc (map raw_trade ts) acc =
     Inr (acc @ map (\<lambda>t. \<lparr>instrument = instr, sequence_id = fst t, trade_id = fst t,
          trade_side = (if fst (snd t) = PStr ''Buy'' then BUY else SELL),
          qty = quantity_value (snd (snd (snd t))),
          price = round_double (real_of_int (fst (snd (snd t))) / 10 ^ nat sc)\<rparr>) ts)"
proof (induction ts arbitrary: acc)
  case Nil
  then show ?case by simp
next
  case (Cons t ts)
  then show ?case by (simp add: extract_trade_raw [OF _ assms] then_do_def)
qed

lemma extract_trades_raw:
  assumes symk: "map_of kvs ''symbol'' = Some (PStr symb)"
    and trs: "map_of kvs ''trades'' = Some (PList (map raw_trade ts))"
    and known: "known_instrument_ids fh symb = Some instr"
    and scale: "price_scaling fh symb = Some sc"
    and sc: "scale_in_range sc"
    and nums: "\<forall>t \<in> set ts. tuple_in_range t"
  shows "extract_trades rt fh (PDict kvs) =
     Inr (map (\<lambda>t. \<lparr>instrument = instr, sequence_id = fst t, trade_id = fst t,
          trade_side = (if fst (snd t) = PStr ''Buy'' then BUY else SELL),
          qty = quantity_value (snd (snd (snd t))),
          price = round_double (real_of_int (fst (snd (snd t))) / 10 ^ nat sc)\<rparr>) ts)"
  using symk trs known scale extract_loop_raw [OF sc nums, of rt instr "[]"]
  by (simp add: extract_trades_def then_do_def)



text \<open>
  C10. In the same setting the side of each decoded trade is \<open>BUY\<close> exactly when the
  tuple's side is the string \<open>'Buy'\<close>; any other side value gives \<open>SELL\<close>, and the message
  still decodes without an exception.
\<close>

theorem extract_trades_side:
  assumes "map_of kvs ''symbol'' = Some (PStr symb)"
    and "map_of kvs ''trades'' = Some (PList (map raw_trade ts))"
    and "known_instrument_ids fh symb = Some instr"
    and "price_scaling fh symb = Some sc"
    and "scale_in_range sc"
    and "\<forall>t \<in> set ts. tuple_in_range t"
  shows "\<exists>out. extract_trades rt fh (PDict kvs) = Inr out \<and>
           map trade_side out =
             map (\<lambda>(tid, sv, p, q). if sv = PStr ''Buy'' then BUY else SELL) ts"
  using extract_trades_raw [OF assms, of rt]
  by (simp add: split_beta comp_def)

theorem extract_trades_side_witness:
  "scale_in_range 4
   \<and> (\<exists>out. extract_trades sample_rt live_fh
       (PDict [(''symbol'', PStr ''BTCUSD''),
               (''trades'', PList (map raw_trade
                  [(PInt 1, PStr ''Buy'', 3427800, PInt 1),
                   (PInt 2, PStr ''Sell'', 3427800, PInt 1),
                   (PInt 3, PStr ''buy'', 3427800, PInt 1),
                   (PInt 4, PStr ''Hold'', 3427800, PInt 1)]))]) = Inr out
     \<and> map trade_side out = [BUY, SELL, SELL, SELL])"
  using extract_trades_side [of "[(''symbol'', PStr ''BTCUSD''),
               (''trades'', PList (map raw_trade
                  [(PInt 1, PStr ''Buy'', 3427800, PInt 1),
                   (PInt 2, PStr ''Sell'', 3427800, PInt 1),
                   (PInt 3, PStr ''buy'', 3427800, PInt 1),
                   (PInt 4, PStr ''Hold'', 3427800, PInt 1)]))]" "''BTCUSD''"
      "[(PInt 1, PStr ''Buy'', 3427800, PInt 1),
        (PInt 2, PStr ''Sell'', 3427800, PInt 1),
        (PInt 3, PStr ''buy'', 3427800, PInt 1),
        (PInt 4, PStr ''Hold'', 3427800, PInt 1)]" live_fh btcusd 4 sample_rt]
  by (simp add: live_fh_eq scale_in_range_def tuple_in_range_def price_in_range_def)


section \<open>Order book builder\<close>

lemma call_snapshot:
  "OrderBookBuilder_call upd b (Some (OrderBookSnapshot i bs as sq))
     = \<lparr>builder_book = \<lparr>bids = bs, asks = as\<rparr>, published = Some \<lparr>bids = bs, asks = as\<rparr>\<rparr>"
  by (simp add: OrderBookBuilder_call_def Let_def)

text \<open>
  C2. Whatever builder state precedes it, and whatever events led there, a snapshot event
  leaves the builder holding and publishing a book whose bids and asks are the snapshot's
  levels; two builders with different histories agree after the same snapshot.
\<close>

theorem snapshot_replaces_book:
  "builder_book (build_book upd b (evs @ [OrderBookSnapshot i bs as sq])) = \<lparr>bids = bs, asks = as\<rparr>
   \<and> published (build_book upd b (evs @ [OrderBookSnapshot i bs as sq]))
       = Some \<lparr>bids = bs, asks = as\<rparr>
   \<and> build_book upd b (evs @ [OrderBookSnapshot i bs as sq])
       = build_book upd b' (evs' @ [OrderBookSnapshot i bs as sq])"
  by (simp add: build_book_def call_snapshot)

theorem snapshot_replaces_book_witness:
  "bids (builder_book (build_book (\<lambda>ob ev. ob\<lparr>bids := []\<rparr>) OrderBookBuilder_init
      [OrderBookSnapshot btcusd [\<lparr>px = Finite 100, level_qty = Finite 5\<rparr>] [\<lparr>px = Finite 101, level_qty = Finite 3\<rparr>] (PInt 1),
       OrderBookUpdate btcusd [\<lparr>px = Finite 100, level_qty = Finite 0\<rparr>] [\<lparr>px = Finite 101.5, level_qty = Finite 2\<rparr>] (PInt 2),
       OrderBookSnapshot btcusd [\<lparr>px = Finite 99, level_qty = Finite 1\<rparr>] [\<lparr>px = Finite 102, level_qty = Finite 4\<rparr>] (PInt 3)]))
     = [\<lparr>px = Finite 99, level_qty = Finite 1\<rparr>]"
  using snapshot_replaces_book [of "\<lambda>ob ev. ob\<lparr>bids := []\<rparr>" OrderBookBuilder_init
      "[OrderBookSnapshot btcusd [\<lparr>px = Finite 100, level_qty = Finite 5\<rparr>] [\<lparr>px = Finite 101, level_qty = Finite 3\<rparr>] (PInt 1),
        OrderBookUpdate btcusd [\<lparr>px = Finite 100, level_qty = Finite 0\<rparr>] [\<lparr>px = Finite 101.5, level_qty = Finite 2\<rparr>] (PInt 2)]"
      btcusd "[\<lparr>px = Finite 99, level_qty = Finite 1\<rparr>]" "[\<lparr>px = Finite 102, level_qty = Finite 4\<rparr>]" "PInt 3"]
  by simp


section \<open>Tick journal\<close>

lemma on_trade_print_record:
  "appender (on_trade_print now tr j) = appender j @ spec_trade_record now tr"
  by (cases "trade_side tr") (simp_all add: on_trade_print_def spec_trade_record_def)

lemma on_trade_print_counter: "trade_counter (on_trade_print now tr j) = Suc (trade_counter j)"
  by (simp add: on_trade_print_def)

lemma journal_trades_appender:
  "appender (journal_trades evs j) =
     appender j @ concat (map (\<lambda>(now, tr). spec_trade_record now tr) evs)"
proof (induction evs arbitrary: j)
  case Nil
  show ?case by simp
next
  case (Cons e evs)
  obtain now tr where e: "e = (now, tr)" by (cases e)
  show ?case
    unfolding e journal_trades.simps Cons.IH on_trade_print_record by simp
qed

lemma journal_trades_counter:
  "trade_counter (journal_trades evs j) = trade_counter j + length evs"
proof (induction evs arbitrary: j)
  case Nil
  show ?case by simp
next
  case (Cons e evs)
  obtain now tr where e: "e = (now, tr)" by (cases e)
  show ?case
    unfolding e journal_trades.simps Cons.IH on_trade_print_counter by simp
qed

lemma length_trade_records:
  "length (concat (map (\<lambda>(now, tr). spec_trade_record now tr) evs)) = 7 * length evs"
  by (induction evs) (auto simp: spec_trade_record_def)

text \<open>
  C8. Each trade that reaches the journal callback appends one record and nothing else:
  the writes, in order, are the timestamp as a double, the trade id as a long, the trade
  id as a long again, the instrument code as a string, the side flag as a short (1 for
  \<open>BUY\<close>, 0 for \<open>SELL\<close>), the quantity as a double and the price as a double. After any
  sequence of trades the journal holds their records in order, one for each trade.
\<close>

theorem journal_trades_layout:
  "appender (journal_trades evs j) =
     appender j @ concat (map (\<lambda>(now, tr).
       [WriteDouble now, WriteLong (trade_id tr), WriteLong (trade_id tr),
        WriteString (exchange_instrument_code (instrument tr)),
        WriteShort (case trade_side tr of BUY \<Rightarrow> 1 | SELL \<Rightarrow> 0),
        WriteDouble (qty tr), WriteDouble (price tr)]) evs)
   \<and> length (appender (journal_trades evs j)) = length (appender j) + 7 * length evs
   \<and> trade_counter (journal_trades evs j) = trade_counter j + length evs"
proof -
  have a: "appender (journal_trades evs j) =
     appender j @ concat (map (\<lambda>(now, tr).
       [WriteDouble now, WriteLong (trade_id tr), WriteLong (trade_id tr),
        WriteString (exchange_instrument_code (instrument tr)),
        WriteShort (case trade_side tr of BUY \<Rightarrow> 1 | SELL \<Rightarrow> 0),
        WriteDouble (qty tr), WriteDouble (price tr)]) evs)"
    using journal_trades_appender [of evs j] by (simp add: spec_trade_record_def)
  have b: "length (appender (journal_trades evs j)) = length (appender j) + 7 * length evs"
    unfolding journal_trades_appender by (simp add: length_trade_records)
  show ?thesis using a b journal_trades_counter [of evs j] by blast
qed

theorem journal_trades_layout_witness:
  "appender (journal_trades
      [(Finite 1602163800, \<lparr>instrument = btcusd, sequence_id = PInt 555, trade_id = PInt 555,
                      trade_side = BUY, qty = Finite 2.5, price = Finite 342.78\<rparr>),
       (Finite 1602163801, \<lparr>instrument = btcusd, sequence_id = PInt 556, trade_id = PInt 556,
                      trade_side = SELL, qty = Finite 1, price = Finite 342.5\<rparr>)]
      \<lparr>trade_counter = 0, appender = []\<rparr>) =
     [WriteDouble (Finite 1602163800), WriteLong (PInt 555), WriteLong (PInt 555), WriteString ''BTCUSD'',
      WriteShort 1, WriteDouble (Finite 2.5), WriteDouble (Finite 342.78),
      WriteDouble (Finite 1602163801), WriteLong (PInt 556), WriteLong (PInt 556), WriteString ''BTCUSD'',
      WriteShort 0, WriteDouble (Finite 1), WriteDouble (Finite 342.5)]"
  using journal_trades_layout [of
      "[(Finite 1602163800, \<lparr>instrument = btcusd, sequence_id = PInt 555, trade_id = PInt 555,
                      trade_side = BUY, qty = Finite 2.5, price = Finite 342.78\<rparr>),
       (Finite 1602163801, \<lparr>instrument = btcusd, sequence_id = PInt 556, trade_id = PInt 556,
                      trade_side = SELL, qty = Finite 1, price = Finite 342.5\<rparr>)]"
      "\<lparr>trade_counter = 0, appender = []\<rparr>"]
  by (simp add: btcusd_def)

section \<open>Registry\<close>

lemma live_reg_eq: "live_reg = \<lparr>fh_registry = [''phemex:prod'' \<mapsto> live_fh], feeds = Map.empty\<rparr>"
  by (simp add: live_reg_def register_def registry_init_def get_fh_key_def Let_def live_fh_eq)

lemma get_feed_acquired:
  "get_feed live_fh ''phemex:prod:BTCUSD'' live_world = Inr (6, acquired_world)"
  unfolding acquired_world_def by (rule get_feed_live_handler)

lemma registry_get_feed_cached:
  "feeds reg uri = Some r \<Longrightarrow> registry_get_feed reg uri w = Inr (r, reg, w)"
  by (simp add: registry_get_feed_def)

lemma registry_get_feed_result:
  assumes "registry_get_feed reg uri w = Inr (r, reg', w')"
  shows "feeds reg' uri = Some r \<and> fh_registry reg' = fh_registry reg
         \<and> (\<forall>u q. feeds reg u = Some q \<longrightarrow> feeds reg' u = Some q)
         \<and> (\<forall>u q. feeds reg' u = Some q \<longrightarrow> u = uri \<or> feeds reg u = Some q)
         \<and> (feeds reg uri = None \<longrightarrow> (\<exists>a b c fh. split_on CHR '':'' uri = [a, b, c]
                \<and> fh_registry reg (a @ '':'' @ b) = Some fh))"
proof (cases "feeds reg uri")
  case (Some q)
  with assms show ?thesis by (simp add: registry_get_feed_def)
next
  case None
  with assms show ?thesis
    by (auto simp: registry_get_feed_def then_do_Inr_iff unpack3_Inr_iff table_lookup_str
             split: if_splits option.splits)
qed

lemma register_feeds: "feeds (fst (register reg fh w)) = feeds reg"
  by (simp add: register_def Let_def)

lemma register_handlers:
  "fh_registry reg k = Some h \<Longrightarrow> \<exists>h'. fh_registry (fst (register reg fh w)) k = Some h'"
  by (simp add: register_def Let_def)

lemma reachable_keeps_feed:
  "reachable_from reg1 reg2 \<Longrightarrow> feeds reg1 uri = Some r \<Longrightarrow> feeds reg2 uri = Some r"
proof (induction rule: reachable_from.induct)
  case reach_here
  then show ?case .
next
  case (reach_register reg fh w)
  then show ?case by (simp add: register_feeds)
next
  case (reach_get_feed reg u w q reg' w')
  then show ?case using registry_get_feed_result [OF reach_get_feed.hyps(2)] by blast
qed

text \<open>
  C3. Once a request for a URI has returned a feed, every later request for the same URI,
  after any further registrations and requests, returns the same feed object from the
  cache: the registry and the world come back unchanged, so the handler is not called and
  no object is created.
\<close>

theorem registry_get_feed_memoized:
  assumes "registry_get_feed reg uri w = Inr (r, reg1, w1)"
    and "reachable_from reg1 reg2"
  shows "registry_get_feed reg2 uri w2 = Inr (r, reg2, w2)"
proof -
  have "feeds reg1 uri = Some r"
    using registry_get_feed_result [OF assms(1)] by blast
  then have "feeds reg2 uri = Some r"
    using assms(2) by (rule reachable_keeps_feed [rotated])
  then show ?thesis by (rule registry_get_feed_cached)
qed

theorem registry_get_feed_memoized_witness:
  "registry_get_feed live_reg ''phemex:prod:BTCUSD'' live_world = Inr (6, acquired_reg, acquired_world)
   \<and> reachable_from acquired_reg (fst (register acquired_reg sample_fh acquired_world))
   \<and> registry_get_feed (fst (register acquired_reg sample_fh acquired_world))
        ''phemex:prod:BTCUSD'' acquired_world
       = Inr (6, fst (register acquired_reg sample_fh acquired_world), acquired_world)"
proof -
  have a: "registry_get_feed live_reg ''phemex:prod:BTCUSD'' live_world
             = Inr (6, acquired_reg, acquired_world)"
    by (simp add: registry_get_feed_def live_reg_eq then_do_def handler_truthy_def
          get_feed_acquired acquired_reg_def)
  have b: "reachable_from acquired_reg (fst (register acquired_reg sample_fh acquired_world))"
    by (rule reach_register [OF reach_here])
  show ?thesis
    using a b registry_get_feed_memoized [OF a b, of acquired_world] by simp
qed

lemma reachable_feeds_have_handlers:
  "reachable_from registry_init reg \<Longrightarrow> feeds_have_handlers reg"
proof (induction rule: reachable_from.induct)
  case reach_here
  show ?case by (simp add: feeds_have_handlers_def registry_init_def)
next
  case (reach_register reg fh w)
  then show ?case
    unfolding feeds_have_handlers_def register_feeds
    by (metis register_handlers)
next
  case (reach_get_feed reg u w q reg' w')
  note res = registry_get_feed_result [OF reach_get_feed.hyps(2)]
  show ?case
    unfolding feeds_have_handlers_def
  proof (intro allI impI)
    fix uri r assume f: "feeds reg' uri = Some r"
    show "\<exists>a b c fh. split_on CHR '':'' uri = [a, b, c]
            \<and> fh_registry reg' (a @ '':'' @ b) = Some fh"
    proof (cases "feeds reg uri")
      case (Some q)
      then show ?thesis
        using reach_get_feed.IH res unfolding feeds_have_handlers_def by metis
    next
      case None
      with f res have "uri = u" by (metis option.distinct(1))
      with None res show ?thesis by metis
    qed
  qed
qed

text \<open>
  C5. In a registry built from the empty one by registrations and requests, a request for
  a URI \<open>scheme:instance:symbol\<close> whose \<open>scheme:instance\<close> has no registered handler raises:
  the lookup of the handler fails with \<open>KeyError\<close> on that key. No feed and no handler is
  returned.
\<close>

theorem registry_get_feed_unregistered:
  assumes "reachable_from registry_init reg"
    and "split_on CHR '':'' uri = [scheme, inst, symb]"
    and "fh_registry reg (scheme @ '':'' @ inst) = None"
  shows "registry_get_feed reg uri w = Inl (KeyError (PStr (scheme @ '':'' @ inst)))"
proof -
  have "feeds reg uri = None"
  proof (rule ccontr)
    assume "feeds reg uri \<noteq> None"
    then obtain r where "feeds reg uri = Some r" by blast
    with reachable_feeds_have_handlers [OF assms(1)] assms(2,3) show False
      unfolding feeds_have_handlers_def by fastforce
  qed
  with assms(2,3) show ?thesis
    by (simp add: registry_get_feed_def then_do_def)
qed

theorem registry_get_feed_unregistered_witness:
  "reachable_from registry_init live_reg
   \<and> split_on CHR '':'' ''kraken:prod:XBTUSD'' = [''kraken'', ''prod'', ''XBTUSD'']
   \<and> fh_registry live_reg (''kraken'' @ '':'' @ ''prod'') = None
   \<and> registry_get_feed live_reg ''kraken:prod:XBTUSD'' live_world
       = Inl (KeyError (PStr ''kraken:prod''))"
proof -
  have a: "reachable_from registry_init live_reg"
    unfolding live_reg_def by (rule reach_register [OF reach_here])
  have b: "split_on CHR '':'' ''kraken:prod:XBTUSD'' = [''kraken'', ''prod'', ''XBTUSD'']"
    by simp
  have c: "fh_registry live_reg (''kraken'' @ '':'' @ ''prod'') = None"
    by (simp add: live_reg_eq)
  show ?thesis
    using a b c registry_get_feed_unregistered [OF a b c, of live_world] by simp
qed


section \<open>Feeds from a handler\<close>

lemma create_feed_Inr_iff:
  "create_feed fh instr w = Inr (r, w') \<longleftrightarrow>
     (\<exists>t e b. instrument_trades fh (exchange_instrument_code instr) = Some t
        \<and> instrument_order_book_events fh (exchange_instrument_code instr) = Some e
        \<and> instrument_order_books fh (exchange_instrument_code instr) = Some b
        \<and> r = next_ref w
        \<and> w' = w\<lparr>next_ref := Suc (next_ref w),
                  feed_objs := (feed_objs w)(next_ref w \<mapsto>
                    \<lparr>feed_instrument = instr, trades = t,
                     order_book_events = e, order_books = b\<rparr>)\<rparr>)"
  unfolding create_feed_def Let_def then_do_Inr_iff table_lookup_str
  by auto

lemma get_feed_Inr_iff:
  assumes "split_on CHR '':'' uri = [scheme, inst, symb]"
  shows "get_feed fh uri w = Inr (r, w') \<longleftrightarrow>
     scheme = uri_scheme fh \<and> inst = instance_id fh \<and>
     (\<exists>instr. known_instrument_ids fh symb = Some instr
        \<and> create_feed fh instr (log_info (''Acquiring Feed for '' @ uri) w) = Inr (r, w'))"
  using assms by (auto simp: get_feed_def then_do_def split: option.splits)

text \<open>
  C4, as the claim states it, fails: a handler that has been constructed but not started
  knows the instrument \<^verbatim>\<open>BTCUSD\<close>, the URI names its scheme and its instance, and the
  request still raises, because the signals of the symbol are created by \<^verbatim>\<open>start\<close>.
\<close>

theorem get_feed_raises_iff_counterexample:
  "\<not> (isl (get_feed sample_fh ''phemex:prod:BTCUSD'' sample_world) \<longleftrightarrow>
        (''phemex'' \<noteq> uri_scheme sample_fh \<or> ''prod'' \<noteq> instance_id sample_fh
          \<or> known_instrument_ids sample_fh ''BTCUSD'' = None))"
  by (simp add: get_feed_fresh_handler) (simp add: sample_fh_eq)

text \<open>
  C4, amended. For a URI \<open>scheme:instance:symbol\<close> the request raises exactly when the
  scheme is not the handler's, or the instance is not the handler's, or the symbol was
  not discovered, or the signals of the discovered instrument have not been created (the
  handler has not been started, or its symbol filter excludes the instrument). Otherwise
  it returns a feed for the instrument discovered under that symbol.
\<close>

theorem get_feed_raises_iff:
  assumes "split_on CHR '':'' uri = [scheme, inst, symb]"
  shows "(isl (get_feed fh uri w) \<longleftrightarrow>
            scheme \<noteq> uri_scheme fh \<or> inst \<noteq> instance_id fh
            \<or> known_instrument_ids fh symb = None
            \<or> (\<exists>instr. known_instrument_ids fh symb = Some instr
                  \<and> \<not> signals_created fh (exchange_instrument_code instr)))
       \<and> (\<forall>r w'. get_feed fh uri w = Inr (r, w') \<longrightarrow>
            (\<exists>f. feed_objs w' r = Some f
               \<and> known_instrument_ids fh symb = Some (feed_instrument f)))"
proof -
  have inl: "isl (get_feed fh uri w) \<longleftrightarrow> \<not> (\<exists>r w'. get_feed fh uri w = Inr (r, w'))"
    by (cases "get_feed fh uri w") auto
  have ok: "(\<exists>r w'. get_feed fh uri w = Inr (r, w')) \<longleftrightarrow>
      scheme = uri_scheme fh \<and> inst = instance_id fh \<and>
      (\<exists>instr. known_instrument_ids fh symb = Some instr
          \<and> signals_created fh (exchange_instrument_code instr))"
    unfolding get_feed_Inr_iff [OF assms] create_feed_Inr_iff signals_created_def
    by auto
  have first: "isl (get_feed fh uri w) \<longleftrightarrow>
            scheme \<noteq> uri_scheme fh \<or> inst \<noteq> instance_id fh
            \<or> known_instrument_ids fh symb = None
            \<or> (\<exists>instr. known_instrument_ids fh symb = Some instr
                  \<and> \<not> signals_created fh (exchange_instrument_code instr))"
    unfolding inl ok by auto
  have second: "\<forall>r w'. get_feed fh uri w = Inr (r, w') \<longrightarrow>
            (\<exists>f. feed_objs w' r = Some f
               \<and> known_instrument_ids fh symb = Some (feed_instrument f))"
    unfolding get_feed_Inr_iff [OF assms] create_feed_Inr_iff
    by auto
  from first second show ?thesis by blast
qed

theorem get_feed_raises_iff_witness:
  "split_on CHR '':'' ''phemex:prod:BTCUSD'' = [''phemex'', ''prod'', ''BTCUSD'']
   \<and> \<not> isl (get_feed live_fh ''phemex:prod:BTCUSD'' live_world)
   \<and> signals_created live_fh ''BTCUSD''
   \<and> isl (get_feed live_fh ''phemex:prod:ETHUSD'' live_world)
   \<and> (\<exists>f. feed_objs acquired_world 6 = Some f
         \<and> known_instrument_ids live_fh ''BTCUSD'' = Some (feed_instrument f))"
proof -
  have eth: "split_on CHR '':'' ''phemex:prod:ETHUSD'' = [''phemex'', ''prod'', ''ETHUSD'']"
    by simp
  have none: "known_instrument_ids live_fh ''ETHUSD'' = None"
    by (simp add: live_fh_eq)
  have sig: "signals_created live_fh ''BTCUSD''"
    by (simp add: signals_created_def live_fh_eq)
  show ?thesis
    using get_feed_raises_iff [OF split_sample_uri, of live_fh live_world]
      get_feed_raises_iff [OF eth, of live_fh live_world]
      get_feed_acquired none sig split_sample_uri
    by simp
qed

lemma restarted_fh_eq:
  "restarted_fh = live_fh\<lparr>state := [INITIALIZING, STARTING, LIVE, STARTING, LIVE],
       instrument_trades := [''BTCUSD'' \<mapsto> 7],
       instrument_order_book_events := [''BTCUSD'' \<mapsto> 8],
       instrument_order_books := [''BTCUSD'' \<mapsto> 9]\<rparr>"
  unfolding restarted_fh_def acquired_world_def live_fh_eq live_world_eq
  by (simp add: start_def subscribe_trades_and_quotes_def schedule_state_def Let_def
        eval_nat_numeral btcusd_def)

lemma restarted_world_next: "next_ref restarted_world = 12"
  unfolding restarted_world_def acquired_world_def live_fh_eq live_world_eq
  by (simp add: start_def subscribe_trades_and_quotes_def schedule_state_def Let_def
        btcusd_def)

text \<open>
  C9, as the claim states it, fails. The instrument \<^verbatim>\<open>BTCUSD\<close> is discovered at
  construction, and on the handler that has not been started the request raises and
  returns no feed. On the live handler the feed has the signals 1, 2 and 3; after
  \<^verbatim>\<open>start\<close> has run once more on that handler the feed of the same URI has the signals
  7, 8 and 9.
\<close>

theorem get_feed_fresh_object_counterexample:
  "known_instrument_ids sample_fh ''BTCUSD'' = Some btcusd
   \<and> get_feed sample_fh ''phemex:prod:BTCUSD'' sample_world = Inl (KeyError (PStr ''BTCUSD''))
   \<and> returned_feed (get_feed live_fh ''phemex:prod:BTCUSD'' live_world)
       = Some \<lparr>feed_instrument = btcusd, trades = 1, order_book_events = 2, order_books = 3\<rparr>
   \<and> returned_feed (get_feed restarted_fh ''phemex:prod:BTCUSD'' restarted_world)
       = Some \<lparr>feed_instrument = btcusd, trades = 7, order_book_events = 8, order_books = 9\<rparr>"
proof -
  have a: "known_instrument_ids sample_fh ''BTCUSD'' = Some btcusd"
    by (simp add: sample_fh_eq)
  have b: "returned_feed (get_feed live_fh ''phemex:prod:BTCUSD'' live_world)
       = Some \<lparr>feed_instrument = btcusd, trades = 1, order_book_events = 2, order_books = 3\<rparr>"
    by (simp add: get_feed_acquired returned_feed_def acquired_world_def)
  have c: "returned_feed (get_feed restarted_fh ''phemex:prod:BTCUSD'' restarted_world)
       = Some \<lparr>feed_instrument = btcusd, trades = 7, order_book_events = 8, order_books = 9\<rparr>"
    unfolding restarted_fh_eq live_fh_eq
    by (simp add: get_feed_def then_do_def create_feed_def Let_def log_info_def btcusd_def
          returned_feed_def)
  from a b c get_feed_fresh_handler show ?thesis by simp
qed

text \<open>
  C9, amended. The handler keeps no cache of feeds. Take a URI that names the handler's
  scheme and instance and a discovered symbol, for whose instrument the handler's three
  tables hold a trade signal, a book event signal and a book signal. Then a request
  returns the next unused reference and stores there a new feed object of that
  instrument and of exactly these three signals, and changes no other object. A later
  request on the same handler value, in any world in which at least as many objects have
  been created, returns a reference that differs from the first, with a feed object of
  the same instrument and the same three signals.
\<close>

theorem get_feed_fresh_object:
  assumes "split_on CHR '':'' uri = [uri_scheme fh, instance_id fh, symb]"
    and "known_instrument_ids fh symb = Some instr"
    and "instrument_trades fh (exchange_instrument_code instr) = Some t"
    and "instrument_order_book_events fh (exchange_instrument_code instr) = Some e"
    and "instrument_order_books fh (exchange_instrument_code instr) = Some b"
  shows "\<exists>w1. get_feed fh uri w = Inr (next_ref w, w1)
           \<and> next_ref w1 = Suc (next_ref w)
           \<and> feed_objs w1 = (feed_objs w)(next_ref w \<mapsto>
                \<lparr>feed_instrument = instr, trades = t, order_book_events = e, order_books = b\<rparr>)
           \<and> (\<forall>w2 :: world. next_ref w1 \<le> next_ref w2 \<longrightarrow>
                (\<exists>w3. get_feed fh uri w2 = Inr (next_ref w2, w3)
                    \<and> next_ref w2 \<noteq> next_ref w
                    \<and> feed_objs w3 = (feed_objs w2)(next_ref w2 \<mapsto>
                         \<lparr>feed_instrument = instr, trades = t,
                          order_book_events = e, order_books = b\<rparr>)))"
proof -
  let ?f = "\<lparr>feed_instrument = instr, trades = t, order_book_events = e, order_books = b\<rparr>"
  have call: "\<And>v. get_feed fh uri v =
      Inr (next_ref v, (log_info (''Acquiring Feed for '' @ uri) v)
             \<lparr>next_ref := Suc (next_ref v), feed_objs := (feed_objs v)(next_ref v \<mapsto> ?f)\<rparr>)"
    unfolding get_feed_Inr_iff [OF assms(1)] create_feed_Inr_iff
    using assms(2-5) by (simp add: log_info_def)
  let ?w1 = "(log_info (''Acquiring Feed for '' @ uri) w)
             \<lparr>next_ref := Suc (next_ref w), feed_objs := (feed_objs w)(next_ref w \<mapsto> ?f)\<rparr>"
  have first: "get_feed fh uri w = Inr (next_ref w, ?w1)" by (rule call)
  have n: "next_ref ?w1 = Suc (next_ref w)" by simp
  have o: "feed_objs ?w1 = (feed_objs w)(next_ref w \<mapsto> ?f)" by simp
  have later: "\<forall>w2 :: world. next_ref ?w1 \<le> next_ref w2 \<longrightarrow>
                (\<exists>w3. get_feed fh uri w2 = Inr (next_ref w2, w3)
                    \<and> next_ref w2 \<noteq> next_ref w
                    \<and> feed_objs w3 = (feed_objs w2)(next_ref w2 \<mapsto> ?f))"
  proof (intro allI impI)
    fix w2 :: world
    assume "next_ref ?w1 \<le> next_ref w2"
    then have "next_ref w2 \<noteq> next_ref w" by simp
    then show "\<exists>w3. get_feed fh uri w2 = Inr (next_ref w2, w3)
                    \<and> next_ref w2 \<noteq> next_ref w
                    \<and> feed_objs w3 = (feed_objs w2)(next_ref w2 \<mapsto> ?f)"
      using call [of w2] by simp
  qed
  from first n o later show ?thesis by blast
qed

theorem get_feed_fresh_object_witness:
  "split_on CHR '':'' ''phemex:prod:BTCUSD'' = [uri_scheme live_fh, instance_id live_fh, ''BTCUSD'']
   \<and> known_instrument_ids live_fh ''BTCUSD'' = Some btcusd
   \<and> instrument_trades live_fh (exchange_instrument_code btcusd) = Some 1
   \<and> instrument_order_book_events live_fh (exchange_instrument_code btcusd) = Some 2
   \<and> instrument_order_books live_fh (exchange_instrument_code btcusd) = Some 3
   \<and> get_feed live_fh ''phemex:prod:BTCUSD'' live_world = Inr (6, acquired_world)
   \<and> (\<exists>w3. get_feed live_fh ''phemex:prod:BTCUSD'' acquired_world = Inr (7, w3)
         \<and> feed_objs w3 = (feed_objs acquired_world)(7 \<mapsto>
              \<lparr>feed_instrument = btcusd, trades = 1, order_book_events = 2, order_books = 3\<rparr>))"
proof -
  have a: "split_on CHR '':'' ''phemex:prod:BTCUSD''
             = [uri_scheme live_fh, instance_id live_fh, ''BTCUSD'']"
    by (simp add: live_fh_eq)
  have b: "known_instrument_ids live_fh ''BTCUSD'' = Some btcusd"
    by (simp add: live_fh_eq)
  have c: "instrument_trades live_fh (exchange_instrument_code btcusd) = Some 1"
    by (simp add: live_fh_eq btcusd_def)
  have d: "instrument_order_book_events live_fh (exchange_instrument_code btcusd) = Some 2"
    by (simp add: live_fh_eq btcusd_def)
  have e: "instrument_order_books live_fh (exchange_instrument_code btcusd) = Some 3"
    by (simp add: live_fh_eq btcusd_def)
  have n6: "next_ref live_world = 6" by (simp add: live_world_eq)
  have n7: "next_ref acquired_world = 7" by (simp add: acquired_world_def)
  from get_feed_fresh_object [OF a b c d e, of live_world] obtain w1 where
    w1: "get_feed live_fh ''phemex:prod:BTCUSD'' live_world = Inr (next_ref live_world, w1)"
    and later: "\<forall>w2 :: world. next_ref w1 \<le> next_ref w2 \<longrightarrow>
                (\<exists>w3. get_feed live_fh ''phemex:prod:BTCUSD'' w2 = Inr (next_ref w2, w3)
                    \<and> next_ref w2 \<noteq> next_ref live_world
                    \<and> feed_objs w3 = (feed_objs w2)(next_ref w2 \<mapsto>
                         \<lparr>feed_instrument = btcusd, trades = 1,
                          order_book_events = 2, order_books = 3\<rparr>))"
    by blast
  from w1 get_feed_acquired have "w1 = acquired_world" by simp
  with later n7 have "\<exists>w3. get_feed live_fh ''phemex:prod:BTCUSD'' acquired_world = Inr (7, w3)
         \<and> feed_objs w3 = (feed_objs acquired_world)(7 \<mapsto>
              \<lparr>feed_instrument = btcusd, trades = 1, order_book_events = 2, order_books = 3\<rparr>)"
    by (metis order_refl)
  with a b c d e get_feed_acquired show ?thesis by blast
qed


section \<open>Malformed messages\<close>

text \<open>
  C6, as the claim states it, fails: text that is not JSON and a trade message without a
  symbol are not dropped.
\<close>

theorem trade_pipeline_drop_counterexample:
  "\<not> dropped (trade_pipeline sample_loads sample_rt live_fh ''not json'')
   \<and> \<not> dropped (trade_pipeline sample_loads sample_rt live_fh ''{\"type\": \"incremental\"}'')
   \<and> order_book_pipeline sample_loads sample_rt live_fh ''{\"type\": \"incremental\"}''
       = Inl (KeyError (PStr ''symbol''))"
  by (simp add: dropped_def trade_pipeline_def order_book_pipeline_def sample_loads_def
        then_do_def extract_trades_def extract_order_book_event_def)

text \<open>
  C6, amended. When \<^verbatim>\<open>json.loads\<close> raises on a payload, its exception leaves the trade
  pipeline. A decoded object of type \<open>incremental\<close> that lacks the symbol raises
  \<open>KeyError\<close>, and so does one that has a known symbol and lacks the trades; the exception
  leaves the trade pipeline. A decoded object whose type is missing or is not
  \<open>incremental\<close> is dropped by the trade pipeline without an exception. In the stages
  behind the order book connection the exception of \<^verbatim>\<open>json.loads\<close> leaves the pipeline as
  well, and so does the \<open>KeyError\<close> of an object of type \<open>incremental\<close> or \<open>snapshot\<close> that
  lacks the symbol.
\<close>

theorem trade_pipeline_malformed:
  "(loads raw = Inl e \<longrightarrow> trade_pipeline loads rt fh raw = Inl e)
   \<and> (loads raw = Inr (PDict kvs) \<and> map_of kvs ''type'' = Some (PStr ''incremental'')
        \<and> map_of kvs ''symbol'' = None
      \<longrightarrow> trade_pipeline loads rt fh raw = Inl (KeyError (PStr ''symbol'')))
   \<and> (loads raw = Inr (PDict kvs) \<and> map_of kvs ''type'' = Some (PStr ''incremental'')
        \<and> map_of kvs ''symbol'' = Some (PStr symb)
        \<and> known_instrument_ids fh symb = Some instr \<and> price_scaling fh symb = Some sc
        \<and> map_of kvs ''trades'' = None
      \<longrightarrow> trade_pipeline loads rt fh raw = Inl (KeyError (PStr ''trades'')))
   \<and> (loads raw = Inr (PDict kvs) \<and> map_of kvs ''type'' \<noteq> Some (PStr ''incremental'')
      \<longrightarrow> dropped (trade_pipeline loads rt fh raw))
   \<and> (loads raw = Inl e \<longrightarrow> order_book_pipeline loads rt fh raw = Inl e)
   \<and> (loads raw = Inr (PDict kvs)
        \<and> (map_of kvs ''type'' = Some (PStr ''incremental'')
            \<or> map_of kvs ''type'' = Some (PStr ''snapshot''))
        \<and> map_of kvs ''symbol'' = None
      \<longrightarrow> order_book_pipeline loads rt fh raw = Inl (KeyError (PStr ''symbol'')))"
proof -
  have a: "loads raw = Inl e \<longrightarrow> trade_pipeline loads rt fh raw = Inl e"
    by (simp add: trade_pipeline_def then_do_def)
  have b: "loads raw = Inr (PDict kvs) \<and> map_of kvs ''type'' = Some (PStr ''incremental'')
        \<and> map_of kvs ''symbol'' = None
      \<longrightarrow> trade_pipeline loads rt fh raw = Inl (KeyError (PStr ''symbol''))"
    by (simp add: trade_pipeline_def then_do_def extract_trades_def)
  have c: "loads raw = Inr (PDict kvs) \<and> map_of kvs ''type'' = Some (PStr ''incremental'')
        \<and> map_of kvs ''symbol'' = Some (PStr symb)
        \<and> known_instrument_ids fh symb = Some instr \<and> price_scaling fh symb = Some sc
        \<and> map_of kvs ''trades'' = None
      \<longrightarrow> trade_pipeline loads rt fh raw = Inl (KeyError (PStr ''trades''))"
    by (simp add: trade_pipeline_def then_do_def extract_trades_def)
  have d: "loads raw = Inr (PDict kvs) \<and> map_of kvs ''type'' \<noteq> Some (PStr ''incremental'')
      \<longrightarrow> dropped (trade_pipeline loads rt fh raw)"
    by (auto simp: trade_pipeline_def then_do_def dropped_def split: option.splits)
  have e: "loads raw = Inl e \<longrightarrow> order_book_pipeline loads rt fh raw = Inl e"
    by (simp add: order_book_pipeline_def then_do_def)
  have f: "loads raw = Inr (PDict kvs)
        \<and> (map_of kvs ''type'' = Some (PStr ''incremental'')
            \<or> map_of kvs ''type'' = Some (PStr ''snapshot''))
        \<and> map_of kvs ''symbol'' = None
      \<longrightarrow> order_book_pipeline loads rt fh raw = Inl (KeyError (PStr ''symbol''))"
    by (auto simp: order_book_pipeline_def then_do_def extract_order_book_event_def)
  from a b c d e f show ?thesis by blast
qed

theorem trade_pipeline_malformed_witness:
  "sample_loads ''not json'' = Inl JSONDecodeError
   \<and> trade_pipeline sample_loads sample_rt live_fh ''not json'' = Inl JSONDecodeError
   \<and> sample_loads ''{\"type\": \"incremental\"}'' = Inr (PDict [(''type'', PStr ''incremental'')])
   \<and> trade_pipeline sample_loads sample_rt live_fh ''{\"type\": \"incremental\"}''
       = Inl (KeyError (PStr ''symbol''))
   \<and> sample_loads ''{}'' = Inr (PDict [])
   \<and> dropped (trade_pipeline sample_loads sample_rt live_fh ''{}'')"
proof -
  have a: "sample_loads ''not json'' = Inl JSONDecodeError"
    by (simp add: sample_loads_def)
  have b: "sample_loads ''{\"type\": \"incremental\"}'' = Inr (PDict [(''type'', PStr ''incremental'')])"
    by (simp add: sample_loads_def)
  have c: "sample_loads ''{}'' = Inr (PDict [])"
    by (simp add: sample_loads_def)
  show ?thesis
    using a b c
      trade_pipeline_malformed [of sample_loads "''not json''" JSONDecodeError sample_rt live_fh]
      trade_pipeline_malformed [of sample_loads "''{\"type\": \"incremental\"}''" _ sample_rt live_fh
         "[(''type'', PStr ''incremental'')]"]
      trade_pipeline_malformed [of sample_loads "''{}''" _ sample_rt live_fh "[]"]
    by simp
qed

section \<open>Lifecycle\<close>

lemma load_instruments_state: "state (fst (load_instruments ps fh w)) = state fh"
  by (induction ps arbitrary: fh w) (simp_all add: Let_def)

lemma init_state:
  "PhemexFeedHandler_init products incl inst w0 = (fh, w) \<Longrightarrow> state fh = [INITIALIZING]"
  by (auto simp: PhemexFeedHandler_init_def split: prod.splits)

lemma subscribe_loop_keeps:
  "state (fst (subscribe_loop is fh w)) = state fh
   \<and> include_symbol (fst (subscribe_loop is fh w)) = include_symbol fh"
  by (induction "is" arbitrary: fh w) (simp_all add: Let_def)

lemma load_instruments_established:
  "filter is_established (effects (snd (load_instruments ps fh w)))
     = filter is_established (effects w)"
  by (induction ps arbitrary: fh w) (simp_all add: Let_def log_info_def)

lemma init_established:
  assumes "PhemexFeedHandler_init products incl inst w0 = (fh, w)"
  shows "filter is_established (effects w) = filter is_established (effects w0)"
proof -
  let ?fh0 = "\<lparr>uri_scheme = ''phemex'', instance_id = inst, instruments = [],
              known_instrument_ids = Map.empty, price_scaling = Map.empty, state = [],
              instrument_trades = Map.empty, instrument_order_book_events = Map.empty,
              instrument_order_books = Map.empty, include_symbol = incl\<rparr>"
  let ?w0 = "log_info ''Downloading supported products'' w0"
  let ?w1 = "snd (load_instruments products ?fh0 ?w0)"
  have "filter is_established (effects ?w1) = filter is_established (effects ?w0)"
    by (rule load_instruments_established)
  then have l: "filter is_established (effects ?w1) = filter is_established (effects w0)"
    by (simp add: log_info_def)
  have "w = ?w1\<lparr>next_ref := Suc (next_ref ?w1),
                   effects := effects ?w1 @ [Attach (next_ref ?w1)]\<rparr>"
    using assms by (simp add: PhemexFeedHandler_init_def split_beta)
  then have "filter is_established (effects w) = filter is_established (effects ?w1)"
    by simp
  with l show ?thesis by simp
qed

lemma subscribe_loop_effects:
  "\<exists>subs. effects (snd (subscribe_loop is fh w)) = effects w @ subs
      \<and> (\<forall>e \<in> set subs. \<not> is_schedule e \<and> \<not> is_established e)
      \<and> (\<forall>i \<in> set is. included fh i \<longrightarrow>
            (\<exists>r. Subscribe ''trade.subscribe'' (exchange_instrument_code i) r \<in> set subs)
            \<and> (\<exists>r. Subscribe ''orderbook.subscribe'' (exchange_instrument_code i) r \<in> set subs))"
proof (induction "is" arbitrary: fh w)
  case Nil
  show ?case by simp
next
  case (Cons i "is")
  show ?case
  proof (cases "included fh i")
    case True
    let ?sym = "exchange_instrument_code i"
    let ?r = "next_ref w"
    let ?fh1 = "fh\<lparr>instrument_trades := (instrument_trades fh)(?sym \<mapsto> ?r),
               instrument_order_book_events :=
                 (instrument_order_book_events fh)(?sym \<mapsto> ?r + 1),
               instrument_order_books := (instrument_order_books fh)(?sym \<mapsto> ?r + 2)\<rparr>"
    let ?new = "[Attach ?r, Attach (?r + 1), Attach (?r + 2),
                 Subscribe ''trade.subscribe'' ?sym (?r + 3),
                 Subscribe ''orderbook.subscribe'' ?sym (?r + 4)]"
    let ?w1 = "w\<lparr>next_ref := ?r + 5, effects := effects w @ ?new\<rparr>"
    have step: "subscribe_loop (i # is) fh w = subscribe_loop is ?fh1 ?w1"
      using True by (simp add: included_def Let_def)
    have same: "\<And>j. included ?fh1 j = included fh j"
      by (simp add: included_def)
    from Cons.IH [of ?fh1 ?w1] obtain subs where
      e: "effects (snd (subscribe_loop is ?fh1 ?w1)) = effects ?w1 @ subs"
      and n: "\<forall>e \<in> set subs. \<not> is_schedule e \<and> \<not> is_established e"
      and s: "\<forall>j \<in> set is. included fh j \<longrightarrow>
            (\<exists>r. Subscribe ''trade.subscribe'' (exchange_instrument_code j) r \<in> set subs)
            \<and> (\<exists>r. Subscribe ''orderbook.subscribe'' (exchange_instrument_code j) r \<in> set subs)"
      unfolding same by blast
    have e': "effects (snd (subscribe_loop (i # is) fh w)) = effects w @ (?new @ subs)"
      unfolding step e by simp
    have n': "\<forall>e \<in> set (?new @ subs). \<not> is_schedule e \<and> \<not> is_established e"
      using n by simp
    have here: "(\<exists>r. Subscribe ''trade.subscribe'' ?sym r \<in> set (?new @ subs))
            \<and> (\<exists>r. Subscribe ''orderbook.subscribe'' ?sym r \<in> set (?new @ subs))"
      by auto
    have s': "\<forall>j \<in> set (i # is). included fh j \<longrightarrow>
            (\<exists>r. Subscribe ''trade.subscribe'' (exchange_instrument_code j) r \<in> set (?new @ subs))
            \<and> (\<exists>r. Subscribe ''orderbook.subscribe'' (exchange_instrument_code j) r
                   \<in> set (?new @ subs))"
    proof
      fix j assume j: "j \<in> set (i # is)"
      show "included fh j \<longrightarrow>
            (\<exists>r. Subscribe ''trade.subscribe'' (exchange_instrument_code j) r \<in> set (?new @ subs))
            \<and> (\<exists>r. Subscribe ''orderbook.subscribe'' (exchange_instrument_code j) r
                   \<in> set (?new @ subs))"
      proof (cases "j = i")
        case True
        then show ?thesis using here by blast
      next
        case False
        with j have "j \<in> set is" by simp
        with s show ?thesis by fastforce
      qed
    qed
    from e' n' s' show ?thesis by blast
  next
    case False
    have step: "subscribe_loop (i # is) fh w = subscribe_loop is fh w"
      using False by (simp add: included_def Let_def)
    from Cons.IH [of fh w] obtain subs where
      e: "effects (snd (subscribe_loop is fh w)) = effects w @ subs"
      and n: "\<forall>e \<in> set subs. \<not> is_schedule e \<and> \<not> is_established e"
      and s: "\<forall>j \<in> set is. included fh j \<longrightarrow>
            (\<exists>r. Subscribe ''trade.subscribe'' (exchange_instrument_code j) r \<in> set subs)
            \<and> (\<exists>r. Subscribe ''orderbook.subscribe'' (exchange_instrument_code j) r \<in> set subs)"
      by blast
    have s': "\<forall>j \<in> set (i # is). included fh j \<longrightarrow>
            (\<exists>r. Subscribe ''trade.subscribe'' (exchange_instrument_code j) r \<in> set subs)
            \<and> (\<exists>r. Subscribe ''orderbook.subscribe'' (exchange_instrument_code j) r \<in> set subs)"
      using s False by auto
    from e n s' show ?thesis unfolding step by blast
  qed
qed

lemma start_state: "state (fst (start fh w)) = state fh @ [STARTING, LIVE]"
  using subscribe_loop_keeps [of "instruments fh" "fh\<lparr>state := state fh @ [STARTING]\<rparr>"
      "w\<lparr>effects := effects w @ [ScheduleState STARTING]\<rparr>"]
  by (simp add: start_def subscribe_trades_and_quotes_def schedule_state_def split_beta)

lemma start_effects:
  "\<exists>subs. effects (snd (start fh w)) = effects w @ [ScheduleState STARTING] @ subs @ [ScheduleState LIVE]
      \<and> (\<forall>e \<in> set subs. \<not> is_schedule e \<and> \<not> is_established e)
      \<and> (\<forall>i \<in> set (instruments fh). included fh i \<longrightarrow>
            (\<exists>r. Subscribe ''trade.subscribe'' (exchange_instrument_code i) r \<in> set subs)
            \<and> (\<exists>r. Subscribe ''orderbook.subscribe'' (exchange_instrument_code i) r \<in> set subs))"
proof -
  let ?fh1 = "fh\<lparr>state := state fh @ [STARTING]\<rparr>"
  let ?w1 = "w\<lparr>effects := effects w @ [ScheduleState STARTING]\<rparr>"
  have same: "\<And>j. included ?fh1 j = included fh j"
    by (simp add: included_def)
  from subscribe_loop_effects [of "instruments fh" ?fh1 ?w1] obtain subs where
    e: "effects (snd (subscribe_loop (instruments fh) ?fh1 ?w1)) = effects ?w1 @ subs"
    and n: "\<forall>e \<in> set subs. \<not> is_schedule e \<and> \<not> is_established e"
    and s: "\<forall>i \<in> set (instruments fh). included fh i \<longrightarrow>
            (\<exists>r. Subscribe ''trade.subscribe'' (exchange_instrument_code i) r \<in> set subs)
            \<and> (\<exists>r. Subscribe ''orderbook.subscribe'' (exchange_instrument_code i) r \<in> set subs)"
    unfolding same by auto
  have "effects (snd (start fh w)) = effects w @ [ScheduleState STARTING] @ subs @ [ScheduleState LIVE]"
    using e by (simp add: start_def subscribe_trades_and_quotes_def schedule_state_def
                  split_beta)
  with n s show ?thesis by blast
qed

lemma start_established:
  "filter is_established (effects (snd (start fh w))) = filter is_established (effects w)"
proof -
  from start_effects [of fh w] obtain subs where
    e: "effects (snd (start fh w)) = effects w @ [ScheduleState STARTING] @ subs @ [ScheduleState LIVE]"
    and n: "\<forall>e \<in> set subs. \<not> is_schedule e \<and> \<not> is_established e"
    by blast
  from n have "filter is_established subs = []" by (simp add: filter_empty_conv)
  then show ?thesis unfolding e by simp
qed

text \<open>
  C7, as the claim states it, fails in two ways. When the first \<^verbatim>\<open>start\<close> has returned,
  the state signal has been given \<open>LIVE\<close>, while the two subscription tasks have only been
  handed to the event loop and no subscription is established. And nothing keeps
  \<^verbatim>\<open>start\<close> from running on a handler that is live; the state signal then goes from
  \<open>LIVE\<close> back to \<open>STARTING\<close>.
\<close>

theorem start_twice_counterexample:
  "last (state live_fh) = LIVE
   \<and> filter is_subscribe (effects live_world) =
        [Subscribe ''trade.subscribe'' ''BTCUSD'' 4, Subscribe ''orderbook.subscribe'' ''BTCUSD'' 5]
   \<and> filter is_established (effects live_world) = []
   \<and> \<not> forward_only (state (fst (start live_fh live_world)))"
  by (simp add: start_state live_fh_eq live_world_eq forward_only_def)

text \<open>
  C7, amended. The state signal of a new handler holds \<open>INITIALIZING\<close>. The first
  \<^verbatim>\<open>start\<close> schedules \<open>STARTING\<close>, then hands to the event loop the trade and order book
  subscription tasks of every included instrument, and then schedules \<open>LIVE\<close>; it
  establishes no subscription, and neither does the construction of the handler. The
  state signal has then taken the values \<open>INITIALIZING\<close>, \<open>STARTING\<close>, \<open>LIVE\<close> in this
  order and has not stepped back. A second \<^verbatim>\<open>start\<close> gives it \<open>STARTING\<close> and \<open>LIVE\<close>
  once more.
\<close>

theorem start_once_forward:
  assumes "PhemexFeedHandler_init products incl inst w0 = (fh, w)"
    and "start fh w = (fh', w')"
  shows "state fh = [INITIALIZING]
     \<and> state fh' = [INITIALIZING, STARTING, LIVE]
     \<and> forward_only (state fh')
     \<and> (\<exists>subs. effects w' = effects w @ [ScheduleState STARTING] @ subs @ [ScheduleState LIVE]
          \<and> (\<forall>e \<in> set subs. \<not> is_schedule e \<and> \<not> is_established e)
          \<and> (\<forall>i \<in> set (instruments fh). included fh i \<longrightarrow>
                (\<exists>r. Subscribe ''trade.subscribe'' (exchange_instrument_code i) r \<in> set subs)
                \<and> (\<exists>r. Subscribe ''orderbook.subscribe'' (exchange_instrument_code i) r
                       \<in> set subs)))
     \<and> filter is_established (effects w') = filter is_established (effects w0)
     \<and> state (fst (start fh' w')) = [INITIALIZING, STARTING, LIVE, STARTING, LIVE]"
proof -
  have a: "state fh = [INITIALIZING]"
    using assms(1) by (rule init_state)
  have b: "state fh' = [INITIALIZING, STARTING, LIVE]"
    using start_state [of fh w] a assms(2) by simp
  have c: "forward_only (state fh')"
    unfolding b by (simp add: forward_only_def)
  have d: "\<exists>subs. effects w' = effects w @ [ScheduleState STARTING] @ subs @ [ScheduleState LIVE]
          \<and> (\<forall>e \<in> set subs. \<not> is_schedule e \<and> \<not> is_established e)
          \<and> (\<forall>i \<in> set (instruments fh). included fh i \<longrightarrow>
                (\<exists>r. Subscribe ''trade.subscribe'' (exchange_instrument_code i) r \<in> set subs)
                \<and> (\<exists>r. Subscribe ''orderbook.subscribe'' (exchange_instrument_code i) r
                       \<in> set subs))"
    using start_effects [of fh w] assms(2) by simp
  have e: "filter is_established (effects w') = filter is_established (effects w0)"
    using start_established [of fh w] init_established [OF assms(1)] assms(2) by simp
  have f: "state (fst (start fh' w')) = [INITIALIZING, STARTING, LIVE, STARTING, LIVE]"
    using start_state [of fh' w'] b by simp
  from a b c d e f show ?thesis by blast
qed

theorem start_once_forward_witness:
  "PhemexFeedHandler_init sample_products ''*'' ''prod'' world_init = (sample_fh, sample_world)
   \<and> start sample_fh sample_world = (live_fh, live_world)
   \<and> state sample_fh = [INITIALIZING]
   \<and> state live_fh = [INITIALIZING, STARTING, LIVE]
   \<and> forward_only (state live_fh)
   \<and> effects live_world = effects sample_world @
        [ScheduleState STARTING, Attach 1, Attach 2, Attach 3,
         Subscribe ''trade.subscribe'' ''BTCUSD'' 4,
         Subscribe ''orderbook.subscribe'' ''BTCUSD'' 5,
         ScheduleState LIVE]
   \<and> filter is_established (effects live_world) = []
   \<and> filter is_established (effects (run_subscription ''trade.subscribe'' ''BTCUSD'' live_world))
       = [Established ''trade.subscribe'' ''BTCUSD'']
   \<and> state (fst (start live_fh live_world)) = [INITIALIZING, STARTING, LIVE, STARTING, LIVE]"
proof -
  have a: "PhemexFeedHandler_init sample_products ''*'' ''prod'' world_init = (sample_fh, sample_world)"
    by (simp add: sample_fh_def sample_world_def)
  have b: "start sample_fh sample_world = (live_fh, live_world)"
    by (simp add: live_fh_def live_world_def)
  have c: "effects live_world = effects sample_world @
        [ScheduleState STARTING, Attach 1, Attach 2, Attach 3,
         Subscribe ''trade.subscribe'' ''BTCUSD'' 4,
         Subscribe ''orderbook.subscribe'' ''BTCUSD'' 5,
         ScheduleState LIVE]"
    by (simp add: live_world_eq sample_world_eq)
  have d: "filter is_established (effects (run_subscription ''trade.subscribe'' ''BTCUSD'' live_world))
       = [Established ''trade.subscribe'' ''BTCUSD'']"
    by (simp add: run_subscription_def live_world_eq)
  have e: "filter is_established (effects world_init) = []"
    by (simp add: world_init_def)
  show ?thesis
    using a b c d e start_once_forward [OF a b] by (simp add: forward_only_def)
qed

end
